theory Spec2Isabelle
  imports Main
begin

section \<open>Values of the Lua 5.1 host\<close>

text \<open>
  The binding \<^verbatim>\<open>readline.c\<close> is written against the Lua 5.1 C API, the C library and a
  line-editing library. Its own functions are embedded below one by one, each as a
  transformer of an explicit state; the API calls they are made of are embedded first,
  following \<^verbatim>\<open>lapi.c\<close> and \<^verbatim>\<open>lbaselib.c\<close> of Lua 5.1.
\<close>

text \<open>The four C functions of the binding that are pushed as Lua values (function pointers).\<close>

datatype cfunction = F_lua_returnnil | F_lua_niliterator | F_lua_iterstep | F_lua_ipairsiterator

text \<open>The two functions of Lua's base library that the binding reaches through \<^verbatim>\<open>ipairs\<close>.\<close>

datatype libfunction = F_ipairs | F_ipairsaux

text \<open>
  A function value is a reference: to a C closure of the binding (an address in the closure
  store, since \<^verbatim>\<open>lua_iterstep\<close> assigns to its own upvalue), to a function of the host
  program (an identifier; what it does is given by the host, see \<open>lua_functions\<close> below), or
  to a base-library function.
\<close>

datatype lua_function = CClosure nat | LuaFunction nat | LibFunction libfunction

text \<open>
  Numbers are the integral ones (the binding only meets the control variable of
  \<^verbatim>\<open>ipairs\<close>). A table is represented by the values at its keys \<open>1, 2, \<dots>, n\<close>, with
  \<open>LNil\<close> for an absent key; these are the only keys that \<^verbatim>\<open>ipairs\<close> reads. Strings are
  byte sequences and may contain the byte 0.
\<close>

datatype lua_value =
    LNil
  | LBoolean bool
  | LNumber int
  | LString string
  | LTable "lua_value list"
  | LFunction lua_function
  | LLightUserdata nat
  | LUserdata nat
  | LThread nat

datatype lua_type_tag =
    LUA_TNONE | LUA_TNIL | LUA_TBOOLEAN | LUA_TLIGHTUSERDATA | LUA_TNUMBER | LUA_TSTRING
  | LUA_TTABLE | LUA_TFUNCTION | LUA_TUSERDATA | LUA_TTHREAD

fun ttype :: "lua_value \<Rightarrow> lua_type_tag" where
  "ttype LNil = LUA_TNIL"
| "ttype (LBoolean _) = LUA_TBOOLEAN"
| "ttype (LNumber _) = LUA_TNUMBER"
| "ttype (LString _) = LUA_TSTRING"
| "ttype (LTable _) = LUA_TTABLE"
| "ttype (LFunction _) = LUA_TFUNCTION"
| "ttype (LLightUserdata _) = LUA_TLIGHTUSERDATA"
| "ttype (LUserdata _) = LUA_TUSERDATA"
| "ttype (LThread _) = LUA_TTHREAD"

fun lua_typename :: "lua_type_tag \<Rightarrow> string" where
  "lua_typename LUA_TNONE = ''no value''"
| "lua_typename LUA_TNIL = ''nil''"
| "lua_typename LUA_TBOOLEAN = ''boolean''"
| "lua_typename LUA_TLIGHTUSERDATA = ''userdata''"
| "lua_typename LUA_TNUMBER = ''number''"
| "lua_typename LUA_TSTRING = ''string''"
| "lua_typename LUA_TTABLE = ''table''"
| "lua_typename LUA_TFUNCTION = ''function''"
| "lua_typename LUA_TUSERDATA = ''userdata''"
| "lua_typename LUA_TTHREAD = ''thread''"

section \<open>C strings and the C library\<close>

text \<open>
  A \<^verbatim>\<open>const char *\<close> argument of which only the content matters is a \<open>string option\<close>:
  \<open>None\<close> is the null pointer and \<open>Some bs\<close> points at the bytes \<open>bs\<close> followed by a
  terminating 0. The bytes themselves may contain a 0 (a Lua string does), and then the
  C string ends there.
\<close>

definition NUL :: char where
  "NUL = CHR 0x00"

definition c_str :: "string \<Rightarrow> string" where
  "c_str bs = takeWhile (\<lambda>c. c \<noteq> NUL) bs"

definition strlen :: "string \<Rightarrow> nat" where
  "strlen bs = length (c_str bs)"

text \<open>The byte at an offset of a buffer \<open>bs\<close> followed by its terminator.\<close>

definition byte_at :: "string \<Rightarrow> nat \<Rightarrow> char" where
  "byte_at bs i = (if i < length bs then bs ! i else NUL)"

text \<open>
  \<^verbatim>\<open>strncmp(a, b, n)\<close>: compares at most \<open>n\<close> bytes and stops after a 0 byte; the sign of
  the result is that of the first differing pair, taken as unsigned bytes.
\<close>

fun strncmp_from :: "nat \<Rightarrow> string \<Rightarrow> string \<Rightarrow> nat \<Rightarrow> int" where
  "strncmp_from i a b 0 = 0"
| "strncmp_from i a b (Suc n) =
     (if byte_at a i \<noteq> byte_at b i
      then (if (of_char (byte_at a i) :: nat) < of_char (byte_at b i) then - 1 else 1)
      else if byte_at a i = NUL then 0
      else strncmp_from (Suc i) a b n)"

text \<open>Passing a null pointer to \<^verbatim>\<open>strncmp\<close> is undefined: the result is \<open>None\<close> then.\<close>

definition strncmp :: "string option \<Rightarrow> string option \<Rightarrow> nat \<Rightarrow> int option" where
  "strncmp a b n =
     (case a of None \<Rightarrow> None
      | Some x \<Rightarrow> (case b of None \<Rightarrow> None | Some y \<Rightarrow> Some (strncmp_from 0 x y n)))"

text \<open>
  The \<open>n\<close> bytes that \<^verbatim>\<open>strncpy(dst, src, n)\<close> writes: the C string at \<open>src\<close>, cut after
  \<open>n\<close> bytes or padded with 0 up to \<open>n\<close> bytes.
\<close>

definition strncpy_bytes :: "string \<Rightarrow> nat \<Rightarrow> string" where
  "strncpy_bytes src n = take n (c_str src @ replicate n NUL)"

text \<open>
  The bytes that \<^verbatim>\<open>strlcpy(dst, src, size)\<close> writes when \<open>size > 0\<close>: at most \<open>size - 1\<close>
  bytes of the C string at \<open>src\<close>, then a 0.
\<close>

definition strlcpy_bytes :: "string \<Rightarrow> nat \<Rightarrow> string" where
  "strlcpy_bytes src dsize = take (dsize - 1) (c_str src) @ [NUL]"

section \<open>The state of the process\<close>

text \<open>Dispositions of a signal: the three special values of \<^verbatim>\<open>signal.h\<close> or a handler.\<close>

datatype handler = F_readline_sigint | HostHandler nat

datatype sig_t = SIG_DFL | SIG_IGN | SIG_ERR | Handler handler

definition SIGINT :: int where
  "SIGINT = 2"

text \<open>What \<^verbatim>\<open>rl_completion_entry_function\<close> points at.\<close>

datatype rl_compentry_func = Library_default | F_gen_function

text \<open>Calls that leave the binding, in the order in which they happen.\<close>

datatype event =
    Lua_function_called nat "lua_value list"
  | Rl_free_line_state
  | Rl_cleanup_after_signal
  | Signal_handler_called nat int

text \<open>
  A \<^verbatim>\<open>char *\<close>: the null pointer, a block of the \<^verbatim>\<open>malloc\<close> heap, or an array of bytes
  in static storage (a string literal or a static array of a library), which no
  \<^verbatim>\<open>malloc\<close> returned.
\<close>

datatype ptr = NULL | Addr nat | Static string

text \<open>
  The state is the one \<^verbatim>\<open>lua_State\<close> the binding runs in, the C globals it uses and the part
  of the process it touches. The host program is a parameter: \<open>host\<close> is its own state, of
  any type, and \<open>lua_functions\<close> and \<open>signal_handlers\<close> say what its functions and its
  signal handlers do to it. A host function receives its arguments and either raises an
  error value (\<open>Inl\<close>) or returns its results (\<open>Inr\<close>). A host signal handler receives the
  signal number and may change the disposition of \<^verbatim>\<open>SIGINT\<close>; \<open>None\<close> means that it does
  not return (it ends the process). Host code does not re-enter the binding (the source
  documents \<^verbatim>\<open>lua_readline\<close> as not reentrant) and has no access to the two registry slots.
\<close>

record 'h world =
  stack :: "lua_value list"
  ci_func :: "nat option"
  closures :: "(cfunction \<times> lua_value list) list"
  registry :: "lua_value \<Rightarrow> lua_value"
  globals :: "string \<Rightarrow> lua_value"
  host :: 'h
  lua_functions :: "nat \<Rightarrow> lua_value list \<Rightarrow> 'h \<Rightarrow> (lua_value + lua_value list) \<times> 'h"
  signal_handlers :: "nat \<Rightarrow> int \<Rightarrow> 'h \<times> sig_t \<Rightarrow> ('h \<times> sig_t) option"
  trace :: "event list"
  rl_completion_entry_function :: rl_compentry_func
  rl_readline_name :: ptr
  heap :: "nat \<Rightarrow> string option"
  brk :: nat
  out_of_memory :: bool
  sigint :: sig_t

text \<open>
  How a piece of C code ends. It returns a value (\<open>Ok\<close>). Or control leaves it abruptly,
  skipping the rest of every C function on the way: a Lua error is raised and \<^verbatim>\<open>longjmp\<close>
  goes to the host's nearest protected call, or \<^verbatim>\<open>siglongjmp(globalEnv, v)\<close> is executed, or
  the process ends inside a signal handler. Or there is a fault: the behaviour is undefined
  in C (a write through a null pointer, say), or a closure of the binding is called from
  the base library, which this embedding leaves out (the binding never hands its closures
  to anything but the registry).
\<close>

datatype abrupt = Lua_error lua_value | Siglongjmp int | Process_exit

datatype fault = Undefined_behaviour | Unmodelled_call

datatype ('a, 'h) res =
    Ok 'a "'h world"
  | Abrupt abrupt "'h world"
  | Fault fault

text \<open>
  Sequencing: the code after a call runs only when the call returns. \<open>None\<close> is a call
  that never returns.
\<close>

fun and_then :: "('a, 'h) res option \<Rightarrow> ('a \<Rightarrow> 'h world \<Rightarrow> ('b, 'h) res option) \<Rightarrow> ('b, 'h) res option" where
  "and_then None k = None"
| "and_then (Some (Ok x s)) k = k x s"
| "and_then (Some (Abrupt x s)) k = Some (Abrupt x s)"
| "and_then (Some (Fault f)) k = Some (Fault f)"

subsection \<open>\<^verbatim>\<open>malloc\<close>, \<^verbatim>\<open>free\<close>, \<^verbatim>\<open>signal\<close>\<close>

text \<open>
  \<^verbatim>\<open>malloc(n)\<close> returns the null pointer when memory is exhausted and a block that was not
  live before otherwise. The content of a new block is indeterminate; the binding
  overwrites all of it at once, so it is shown as zeros.
\<close>

definition malloc :: "nat \<Rightarrow> 'h world \<Rightarrow> ptr \<times> 'h world" where
  "malloc n s =
     (if out_of_memory s then (NULL, s)
      else (Addr (brk s), s\<lparr>heap := (heap s)(brk s \<mapsto> replicate n NUL), brk := Suc (brk s)\<rparr>))"

text \<open>
  \<^verbatim>\<open>free(p)\<close>: nothing for the null pointer; undefined (\<open>None\<close>) when \<open>p\<close> is not a live
  block of the heap: a block freed before, or static storage.
\<close>

definition free :: "ptr \<Rightarrow> 'h world \<Rightarrow> 'h world option" where
  "free p s =
     (case p of NULL \<Rightarrow> Some s
      | Addr a \<Rightarrow> (case heap s a of None \<Rightarrow> None | Some _ \<Rightarrow> Some (s\<lparr>heap := (heap s)(a := None)\<rparr>))
      | Static bs \<Rightarrow> None)"

text \<open>\<^verbatim>\<open>signal(SIGINT, h)\<close> installs \<open>h\<close> and returns the disposition it replaces.\<close>

definition signal :: "sig_t \<Rightarrow> 'h world \<Rightarrow> sig_t \<times> 'h world" where
  "signal h s = (sigint s, s\<lparr>sigint := h\<rparr>)"

text \<open>
  \<^verbatim>\<open>strlcpy(dst, src, size)\<close> and \<^verbatim>\<open>strncpy(dst, src, n)\<close> write into the block at \<open>dst\<close>;
  a null or dead \<open>dst\<close>, or a null \<open>src\<close>, is undefined (\<open>None\<close>) as soon as a byte is
  to be moved. The binding writes to what \<^verbatim>\<open>malloc\<close> returned only; a write to static
  storage is left undefined here.
\<close>

definition strlcpy :: "ptr \<Rightarrow> string option \<Rightarrow> nat \<Rightarrow> 'h world \<Rightarrow> 'h world option" where
  "strlcpy dst src dsize s =
     (case src of None \<Rightarrow> None
      | Some bs \<Rightarrow>
          if dsize = 0 then Some s
          else (case dst of NULL \<Rightarrow> None
                | Addr a \<Rightarrow> (case heap s a of None \<Rightarrow> None
                            | Some _ \<Rightarrow> Some (s\<lparr>heap := (heap s)(a \<mapsto> strlcpy_bytes bs dsize)\<rparr>))
                | Static _ \<Rightarrow> None))"

definition strncpy :: "ptr \<Rightarrow> string option \<Rightarrow> nat \<Rightarrow> 'h world \<Rightarrow> 'h world option" where
  "strncpy dst src n s =
     (if n = 0 then Some s
      else (case src of None \<Rightarrow> None
            | Some bs \<Rightarrow>
                (case dst of NULL \<Rightarrow> None
                 | Addr a \<Rightarrow> (case heap s a of None \<Rightarrow> None
                             | Some _ \<Rightarrow> Some (s\<lparr>heap := (heap s)(a \<mapsto> strncpy_bytes bs n)\<rparr>))
                 | Static _ \<Rightarrow> None)))"

text \<open>The C string a \<^verbatim>\<open>char *\<close> points at (empty for a null or dead pointer).\<close>

definition string_at :: "ptr \<Rightarrow> 'h world \<Rightarrow> string" where
  "string_at p s =
     (case p of NULL \<Rightarrow> []
      | Addr a \<Rightarrow> (case heap s a of None \<Rightarrow> [] | Some bs \<Rightarrow> c_str bs)
      | Static bs \<Rightarrow> c_str bs)"

section \<open>The Lua C API\<close>

text \<open>
  The stack of the running C function is a list, bottom first: index \<open>1\<close> is its head and
  index \<open>-1\<close> its last element. Pseudo-indices are as in \<^verbatim>\<open>lua.h\<close> of Lua 5.1.
  \<^verbatim>\<open>lua_checkstack\<close>, whose result the source ignores, is taken to succeed, and so is the
  allocator of Lua: neither appears below.
\<close>

definition LUA_REGISTRYINDEX :: int where
  "LUA_REGISTRYINDEX = - 10000"

definition LUA_GLOBALSINDEX :: int where
  "LUA_GLOBALSINDEX = - 10002"

definition lua_upvalueindex :: "int \<Rightarrow> int" where
  "lua_upvalueindex i = LUA_GLOBALSINDEX - i"

text \<open>The upvalues of the running C closure.\<close>

definition upvalues :: "'h world \<Rightarrow> lua_value list" where
  "upvalues s =
     (case ci_func s of None \<Rightarrow> []
      | Some a \<Rightarrow> if a < length (closures s) then snd (closures s ! a) else [])"

text \<open>
  What an index denotes (\<^verbatim>\<open>index2adr\<close> of \<^verbatim>\<open>lapi.c\<close>): a stack slot, an upvalue of the
  running closure, or nothing (\<^verbatim>\<open>luaO_nilobject\<close>). The tables behind
  \<^verbatim>\<open>LUA_REGISTRYINDEX\<close> and \<^verbatim>\<open>LUA_GLOBALSINDEX\<close> are reached through
  \<open>lua_gettable_registry\<close>, \<open>lua_settable_registry\<close> and \<open>lua_getglobal\<close> below.
\<close>

datatype slot = Stack_slot nat | Upvalue_slot nat | No_slot

definition index2adr :: "int \<Rightarrow> 'h world \<Rightarrow> slot" where
  "index2adr idx s =
     (if idx > 0 then
        (if nat idx \<le> length (stack s) then Stack_slot (nat idx - 1) else No_slot)
      else if idx > LUA_REGISTRYINDEX then
        (if idx < 0 \<and> nat (- idx) \<le> length (stack s)
         then Stack_slot (length (stack s) - nat (- idx)) else No_slot)
      else if idx < LUA_GLOBALSINDEX then
        (if nat (LUA_GLOBALSINDEX - idx) \<le> length (upvalues s)
         then Upvalue_slot (nat (LUA_GLOBALSINDEX - idx) - 1) else No_slot)
      else No_slot)"

fun value_at :: "slot \<Rightarrow> 'h world \<Rightarrow> lua_value" where
  "value_at (Stack_slot i) s = stack s ! i"
| "value_at (Upvalue_slot i) s = upvalues s ! i"
| "value_at No_slot s = LNil"

fun set_slot :: "slot \<Rightarrow> lua_value \<Rightarrow> 'h world \<Rightarrow> 'h world" where
  "set_slot (Stack_slot i) v s = s\<lparr>stack := (stack s)[i := v]\<rparr>"
| "set_slot (Upvalue_slot i) v s =
     (case ci_func s of None \<Rightarrow> s
      | Some a \<Rightarrow> s\<lparr>closures := (closures s)[a := (fst (closures s ! a), (snd (closures s ! a))[i := v])]\<rparr>)"
| "set_slot No_slot v s = s"

definition lua_type :: "int \<Rightarrow> 'h world \<Rightarrow> lua_type_tag" where
  "lua_type idx s =
     (case index2adr idx s of No_slot \<Rightarrow> LUA_TNONE | sl \<Rightarrow> ttype (value_at sl s))"

definition lua_isnil :: "int \<Rightarrow> 'h world \<Rightarrow> bool" where
  "lua_isnil idx s = (lua_type idx s = LUA_TNIL)"

text \<open>
  The text of an integral number (\<^verbatim>\<open>"%.14g"\<close> prints one of magnitude below \<open>10^14\<close> as
  its decimal digits; larger ones are outside this embedding).
\<close>

fun digits :: "nat \<Rightarrow> string" where
  "digits n = (if n < 10 then [char_of (48 + n)] else digits (n div 10) @ [char_of (48 + n mod 10)])"

definition lua_number2str :: "int \<Rightarrow> string" where
  "lua_number2str n = (if n < 0 then CHR ''-'' # digits (nat (- n)) else digits (nat n))"

text \<open>
  \<^verbatim>\<open>lua_tolstring(L, idx, &len)\<close>: the bytes and the length of a string; a number is
  turned into a string where it lies; for any other value the null pointer and length 0.
\<close>

definition lua_tolstring :: "int \<Rightarrow> 'h world \<Rightarrow> string option \<times> nat \<times> 'h world" where
  "lua_tolstring idx s =
     (case value_at (index2adr idx s) s of
        LString t \<Rightarrow> (Some t, length t, s)
      | LNumber n \<Rightarrow>
          (Some (lua_number2str n), length (lua_number2str n),
           set_slot (index2adr idx s) (LString (lua_number2str n)) s)
      | _ \<Rightarrow> (None, 0, s))"

definition push :: "lua_value \<Rightarrow> 'h world \<Rightarrow> 'h world" where
  "push v s = s\<lparr>stack := stack s @ [v]\<rparr>"

definition lua_pushvalue :: "int \<Rightarrow> 'h world \<Rightarrow> 'h world" where
  "lua_pushvalue idx s = push (value_at (index2adr idx s) s) s"

definition lua_pushlightuserdata :: "nat \<Rightarrow> 'h world \<Rightarrow> 'h world" where
  "lua_pushlightuserdata p s = push (LLightUserdata p) s"

text \<open>\<^verbatim>\<open>lua_pushstring(L, p)\<close> pushes a copy of the C string at \<open>p\<close>, or nil for the null pointer.\<close>

definition lua_pushstring :: "string option \<Rightarrow> 'h world \<Rightarrow> 'h world" where
  "lua_pushstring p s = push (case p of None \<Rightarrow> LNil | Some bs \<Rightarrow> LString (c_str bs)) s"

text \<open>
  \<^verbatim>\<open>lua_pushcclosure(L, f, n)\<close> pops \<open>n\<close> values, makes them the upvalues of a new
  closure of \<open>f\<close> and pushes the closure; \<^verbatim>\<open>lua_pushcfunction(L, f)\<close> is the macro for
  \<open>n = 0\<close>.
\<close>

definition lua_pushcclosure :: "cfunction \<Rightarrow> nat \<Rightarrow> 'h world \<Rightarrow> 'h world" where
  "lua_pushcclosure f n s =
     s\<lparr>stack := take (length (stack s) - n) (stack s) @ [LFunction (CClosure (length (closures s)))],
       closures := closures s @ [(f, drop (length (stack s) - n) (stack s))]\<rparr>"

definition lua_pushcfunction :: "cfunction \<Rightarrow> 'h world \<Rightarrow> 'h world" where
  "lua_pushcfunction f s = lua_pushcclosure f 0 s"

definition lua_pop :: "nat \<Rightarrow> 'h world \<Rightarrow> 'h world" where
  "lua_pop n s = s\<lparr>stack := take (length (stack s) - n) (stack s)\<rparr>"

text \<open>\<^verbatim>\<open>lua_insert(L, idx)\<close> moves the top value to \<open>idx\<close>, shifting up the values above.\<close>

definition lua_insert :: "int \<Rightarrow> 'h world \<Rightarrow> 'h world" where
  "lua_insert idx s =
     (case index2adr idx s of
        Stack_slot p \<Rightarrow>
          s\<lparr>stack := take p (stack s) @ [last (stack s)] @ drop p (butlast (stack s))\<rparr>
      | _ \<Rightarrow> s)"

text \<open>\<^verbatim>\<open>lua_replace(L, idx)\<close> stores the top value at \<open>idx\<close> and pops it.\<close>

definition lua_replace :: "int \<Rightarrow> 'h world \<Rightarrow> 'h world" where
  "lua_replace idx s = lua_pop 1 (set_slot (index2adr idx s) (last (stack s)) s)"

text \<open>
  The registry is a table without metatable; the binding keys it with two light userdata,
  the addresses of two of its functions, which only have to differ.
\<close>

definition REGISTRY_KEY_GENERATOR :: nat where
  "REGISTRY_KEY_GENERATOR = 1"

definition REGISTRY_KEY_ITERATOR :: nat where
  "REGISTRY_KEY_ITERATOR = 2"

text \<open>\<^verbatim>\<open>lua_gettable(L, LUA_REGISTRYINDEX)\<close>: the key on top is replaced by the value at that key.\<close>

definition lua_gettable_registry :: "'h world \<Rightarrow> 'h world" where
  "lua_gettable_registry s = s\<lparr>stack := butlast (stack s) @ [registry s (last (stack s))]\<rparr>"

text \<open>\<^verbatim>\<open>lua_settable(L, LUA_REGISTRYINDEX)\<close>: stores the top value at the key below it; pops both.\<close>

definition lua_settable_registry :: "'h world \<Rightarrow> 'h world" where
  "lua_settable_registry s =
     s\<lparr>registry := (registry s)(last (butlast (stack s)) := last (stack s)),
       stack := butlast (butlast (stack s))\<rparr>"

definition lua_getglobal :: "string \<Rightarrow> 'h world \<Rightarrow> 'h world" where
  "lua_getglobal name s = push (globals s name) s"

text \<open>\<^verbatim>\<open>luaL_error\<close> called from a C function raises the message as it is.\<close>

definition luaL_error :: "string \<Rightarrow> 'h world \<Rightarrow> ('a, 'h) res" where
  "luaL_error msg s = Abrupt (Lua_error (LString msg)) s"

subsection \<open>\<^verbatim>\<open>ipairs\<close> of the base library\<close>

definition rawgeti :: "lua_value list \<Rightarrow> int \<Rightarrow> lua_value" where
  "rawgeti t i = (if 1 \<le> i \<and> nat i \<le> length t then t ! (nat i - 1) else LNil)"

text \<open>\<^verbatim>\<open>ipairs(t)\<close> returns the stepping function, \<open>t\<close> and 0.\<close>

definition luaB_ipairs :: "lua_value list \<Rightarrow> lua_value + lua_value list" where
  "luaB_ipairs args =
     (case args of
        LTable t # rest \<Rightarrow> Inr [LFunction (LibFunction F_ipairsaux), LTable t, LNumber 0]
      | _ \<Rightarrow> Inl (LString ''bad argument #1 to ipairs (table expected)''))"

text \<open>
  The stepping function, called with \<open>t\<close> and \<open>i\<close>, returns \<open>i + 1\<close> and \<open>t[i + 1]\<close>, or
  nothing when \<open>t[i + 1]\<close> is nil.
\<close>

definition ipairsaux :: "lua_value list \<Rightarrow> lua_value + lua_value list" where
  "ipairsaux args =
     (case args of
        v # LNumber i # rest \<Rightarrow>
          (case v of
             LTable t \<Rightarrow>
               if rawgeti t (i + 1) = LNil then Inr []
               else Inr [LNumber (i + 1), rawgeti t (i + 1)]
           | _ \<Rightarrow> Inl (LString ''bad argument #1 to ipairs (table expected)''))
      | _ \<Rightarrow> Inl (LString ''bad argument #2 to ipairs (number expected)''))"

subsection \<open>Calls\<close>

text \<open>A call leaves exactly \<open>nresults\<close> values: missing ones are nil, extra ones are dropped.\<close>

definition adjust_results :: "nat \<Rightarrow> lua_value list \<Rightarrow> lua_value list" where
  "adjust_results nresults rs = take nresults (rs @ replicate nresults LNil)"

text \<open>
  \<^verbatim>\<open>lua_call(L, nargs, nresults)\<close>: the function and its arguments are popped and the
  results pushed; an error raised by the callee is not caught. \<open>precall\<close> is the call of a
  function value with the arguments \<open>args\<close>, \<open>below\<close> being the caller's stack under
  them. A C function runs on a stack of its own that holds the arguments, and returns how
  many of its top values are the results. \<open>run\<close> gives the bodies of the C functions of the
  binding.
\<close>

fun precall ::
  "(cfunction \<Rightarrow> 'h world \<Rightarrow> (nat, 'h) res option) \<Rightarrow> lua_function \<Rightarrow> lua_value list \<Rightarrow>
   lua_value list \<Rightarrow> nat \<Rightarrow> 'h world \<Rightarrow> (unit, 'h) res option" where
  "precall run (LuaFunction i) args below nresults s =
     (case lua_functions s i args (host s) of
        (Inl e, h) \<Rightarrow>
          Some (Abrupt (Lua_error e)
                 (s\<lparr>host := h, trace := trace s @ [Lua_function_called i args]\<rparr>))
      | (Inr rs, h) \<Rightarrow>
          Some (Ok () (s\<lparr>stack := below @ adjust_results nresults rs, host := h,
                        trace := trace s @ [Lua_function_called i args]\<rparr>)))"
| "precall run (LibFunction F_ipairs) args below nresults s =
     (case luaB_ipairs args of
        Inl e \<Rightarrow> Some (Abrupt (Lua_error e) s)
      | Inr rs \<Rightarrow> Some (Ok () (s\<lparr>stack := below @ adjust_results nresults rs\<rparr>)))"
| "precall run (LibFunction F_ipairsaux) args below nresults s =
     (case ipairsaux args of
        Inl e \<Rightarrow> Some (Abrupt (Lua_error e) s)
      | Inr rs \<Rightarrow> Some (Ok () (s\<lparr>stack := below @ adjust_results nresults rs\<rparr>)))"
| "precall run (CClosure a) args below nresults s =
     (if length (closures s) \<le> a then Some (Fault Undefined_behaviour)
      else
        (case run (fst (closures s ! a)) (s\<lparr>stack := args, ci_func := Some a\<rparr>) of
           None \<Rightarrow> None
         | Some (Ok n s') \<Rightarrow>
             Some (Ok () (s'\<lparr>stack := below @ adjust_results nresults
                                      (drop (length (stack s') - n) (stack s')),
                            ci_func := ci_func s\<rparr>))
         | Some (Abrupt x s') \<Rightarrow> Some (Abrupt x s')
         | Some (Fault f) \<Rightarrow> Some (Fault f)))"

definition luaD_call ::
  "(cfunction \<Rightarrow> 'h world \<Rightarrow> (nat, 'h) res option) \<Rightarrow> nat \<Rightarrow> nat \<Rightarrow> 'h world \<Rightarrow> (unit, 'h) res option" where
  "luaD_call run nargs nresults s =
     (if length (stack s) < Suc nargs then Some (Fault Undefined_behaviour)
      else
        (case stack s ! (length (stack s) - Suc nargs) of
           LFunction fn \<Rightarrow>
             precall run fn (drop (length (stack s) - nargs) (stack s))
               (take (length (stack s) - Suc nargs) (stack s)) nresults s
         | v \<Rightarrow>
             Some (Abrupt (Lua_error (LString (''attempt to call a '' @ lua_typename (ttype v) @ '' value''))) s)))"

section \<open>The completion bridge\<close>

text \<open>An iterator that always returns nil.\<close>

definition lua_returnnil :: "'h world \<Rightarrow> (nat, 'h) res" where
  "lua_returnnil s = Ok 0 s"

text \<open>A generator that always returns an empty iterator.\<close>

definition lua_niliterator :: "'h world \<Rightarrow> (nat, 'h) res" where
  "lua_niliterator s = Ok 1 (lua_pushcfunction F_lua_returnnil s)"

text \<open>
  Calls made by \<^verbatim>\<open>lua_iterstep\<close> and \<^verbatim>\<open>lua_ipairsiterator\<close>: their callees are the value
  of the global \<^verbatim>\<open>ipairs\<close> and what it returned, so base-library or host functions.
\<close>

fun run_leaf :: "cfunction \<Rightarrow> 'h world \<Rightarrow> (nat, 'h) res option" where
  "run_leaf F_lua_returnnil s = Some (lua_returnnil s)"
| "run_leaf F_lua_niliterator s = Some (lua_niliterator s)"
| "run_leaf F_lua_iterstep s = Some (Fault Unmodelled_call)"
| "run_leaf F_lua_ipairsiterator s = Some (Fault Unmodelled_call)"

definition lua_call_lib :: "nat \<Rightarrow> nat \<Rightarrow> 'h world \<Rightarrow> (unit, 'h) res option" where
  "lua_call_lib nargs nresults s = luaD_call run_leaf nargs nresults s"

text \<open>
  The \<^verbatim>\<open>for (;;)\<close> of \<^verbatim>\<open>lua_iterstep\<close>, with \<open>pref\<close> and \<open>len\<close> as read from upvalue 4.
  Upvalues 1 to 3 hold what \<^verbatim>\<open>ipairs\<close> returned, the third being replaced by the key of
  each step. The loop need not end (\<open>None\<close>) when \<^verbatim>\<open>ipairs\<close> is not the library's.
\<close>

partial_function (option) lua_iterstep_loop ::
  "string option \<Rightarrow> nat \<Rightarrow> 'h world \<Rightarrow> (nat, 'h) res option" where
  "lua_iterstep_loop pref len s =
     (case lua_call_lib 2 2
             (lua_pushvalue (lua_upvalueindex 3)
               (lua_pushvalue (lua_upvalueindex 2)
                 (lua_pushvalue (lua_upvalueindex 1) s))) of
        None \<Rightarrow> None
      | Some (Abrupt x s1) \<Rightarrow> Some (Abrupt x s1)
      | Some (Fault f) \<Rightarrow> Some (Fault f)
      | Some (Ok u s1) \<Rightarrow>
          (let s2 = lua_replace (lua_upvalueindex 3) (lua_insert (- 2) s1) in
           if lua_isnil (- 1) s2 then Some (Ok 1 s2)
           else
             (case lua_tolstring (- 1) s2 of
                (res, rlen, s3) \<Rightarrow>
                  if rlen \<ge> len
                  then (case strncmp pref res len of
                          None \<Rightarrow> Some (Fault Undefined_behaviour)
                        | Some c \<Rightarrow>
                            if c = 0 then Some (Ok 1 s3)
                            else lua_iterstep_loop pref len (lua_pop 1 s3))
                  else lua_iterstep_loop pref len (lua_pop 1 s3))))"

declare lua_iterstep_loop.simps [code]

definition lua_iterstep :: "'h world \<Rightarrow> (nat, 'h) res option" where
  "lua_iterstep s =
     (case lua_tolstring (lua_upvalueindex 4) s of
        (pref, len, s) \<Rightarrow> lua_iterstep_loop pref len s)"

text \<open>
  The generator for a table: calls \<^verbatim>\<open>ipairs\<close> on the table (upvalue 1) and wraps the three
  results and the prefix (argument 1) in a closure of \<^verbatim>\<open>lua_iterstep\<close>.
\<close>

definition lua_ipairsiterator :: "'h world \<Rightarrow> (nat, 'h) res option" where
  "lua_ipairsiterator s =
     and_then (lua_call_lib 1 3 (lua_pushvalue (lua_upvalueindex 1) (lua_getglobal ''ipairs'' s)))
       (\<lambda>u s. Some (Ok 1 (lua_pushcclosure F_lua_iterstep 4 (lua_pushvalue 1 s))))"

fun run_cfunction :: "cfunction \<Rightarrow> 'h world \<Rightarrow> (nat, 'h) res option" where
  "run_cfunction F_lua_returnnil s = Some (lua_returnnil s)"
| "run_cfunction F_lua_niliterator s = Some (lua_niliterator s)"
| "run_cfunction F_lua_iterstep s = lua_iterstep s"
| "run_cfunction F_lua_ipairsiterator s = lua_ipairsiterator s"

definition lua_call :: "nat \<Rightarrow> nat \<Rightarrow> 'h world \<Rightarrow> (unit, 'h) res option" where
  "lua_call nargs nresults s = luaD_call run_cfunction nargs nresults s"

text \<open>Allocates memory to copy a string and copies it. The result of \<^verbatim>\<open>malloc\<close> is not tested.\<close>

definition clonestr :: "string option \<Rightarrow> 'h world \<Rightarrow> (ptr, 'h) res" where
  "clonestr srcstr s =
     (case srcstr of
        None \<Rightarrow> Fault Undefined_behaviour
      | Some bs \<Rightarrow>
          (case malloc (strlen bs + 1) s of
             (dststr, s1) \<Rightarrow>
               (case strlcpy dststr srcstr (strlen bs + 1) s1 of
                  None \<Rightarrow> Fault Undefined_behaviour
                | Some s2 \<Rightarrow> Ok dststr s2)))"

text \<open>
  Generator init function: calls the generator stored in the registry with the text to
  complete and stores the iterator it returns.
\<close>

definition lua_initgenerator :: "string \<Rightarrow> 'h world \<Rightarrow> (unit, 'h) res option" where
  "lua_initgenerator text s =
     and_then
       (lua_call 1 1
          (lua_pushstring (Some text)
            (lua_gettable_registry (lua_pushlightuserdata REGISTRY_KEY_GENERATOR s))))
       (\<lambda>u s. Some (Ok ()
          (lua_settable_registry (lua_insert (- 2) (lua_pushlightuserdata REGISTRY_KEY_ITERATOR s)))))"

text \<open>
  Generator step function: calls the stored iterator and returns a copy of the string it
  returned, or the null pointer when it returned nil. The returned value is popped in the
  nil case only.
\<close>

definition lua_stepgenerator :: "'h world \<Rightarrow> (ptr, 'h) res option" where
  "lua_stepgenerator s =
     and_then
       (lua_call 0 1 (lua_gettable_registry (lua_pushlightuserdata REGISTRY_KEY_ITERATOR s)))
       (\<lambda>u s.
          if lua_isnil (- 1) s then Some (Ok NULL (lua_pop 1 s))
          else
            (case lua_tolstring (- 1) s of
               (str, len, s1) \<Rightarrow>
                 (case malloc (len + 1) s1 of
                    (newstr, s2) \<Rightarrow>
                      (case strncpy newstr str (len + 1) s2 of
                         None \<Rightarrow> Some (Fault Undefined_behaviour)
                       | Some s3 \<Rightarrow> Some (Ok newstr s3)))))"

text \<open>
  The entry point given to the line-editing library. \<^verbatim>\<open>globalL\<close> is the one Lua state of
  this embedding.
\<close>

definition gen_function :: "string \<Rightarrow> int \<Rightarrow> 'h world \<Rightarrow> (ptr, 'h) res option" where
  "gen_function text state s =
     (if state = 0 then and_then (lua_initgenerator text s) (\<lambda>u s. lua_stepgenerator s)
      else lua_stepgenerator s)"

section \<open>The interruptible read\<close>

text \<open>A signal handler returning back into \<^verbatim>\<open>lua_readline\<close>.\<close>

definition readline_sigint :: "int \<Rightarrow> 'h world \<Rightarrow> (unit, 'h) res" where
  "readline_sigint sig s = Abrupt (Siglongjmp sig) s"

text \<open>Calling a handler through a \<^verbatim>\<open>sig_t\<close>.\<close>

fun call_handler :: "handler \<Rightarrow> int \<Rightarrow> 'h world \<Rightarrow> (unit, 'h) res" where
  "call_handler F_readline_sigint sig s = readline_sigint sig s"
| "call_handler (HostHandler h) sig s =
     (case signal_handlers s h sig (host s, sigint s) of
        None \<Rightarrow> Abrupt Process_exit (s\<lparr>trace := trace s @ [Signal_handler_called h sig]\<rparr>)
      | Some (h', d) \<Rightarrow>
          Ok () (s\<lparr>host := h', sigint := d, trace := trace s @ [Signal_handler_called h sig]\<rparr>))"

text \<open>The system delivers \<^verbatim>\<open>SIGINT\<close> according to its disposition.\<close>

definition deliver_SIGINT :: "'h world \<Rightarrow> (unit, 'h) res" where
  "deliver_SIGINT s =
     (case sigint s of
        SIG_DFL \<Rightarrow> Abrupt Process_exit s
      | Handler h \<Rightarrow> call_handler h SIGINT s
      | _ \<Rightarrow> Ok () s)"

text \<open>
  The blocking \<^verbatim>\<open>readline(prompt)\<close> of the line-editing library, as the binding sees it.
  What the user does while it blocks is a list of events: the library asks its completion
  entry function for one more candidate (with the word and the state it passes), or
  \<^verbatim>\<open>SIGINT\<close> arrives. When the events are over the call returns \<open>line\<close>: the line typed, or
  the null pointer.
\<close>

datatype rl_event = Completion string int | Interrupt

fun readline :: "string option \<Rightarrow> rl_event list \<Rightarrow> string option \<Rightarrow> 'h world \<Rightarrow> (string option, 'h) res option" where
  "readline prompt [] line s = Some (Ok line s)"
| "readline prompt (Completion text state # es) line s =
     (case rl_completion_entry_function s of
        F_gen_function \<Rightarrow> and_then (gen_function text state s) (\<lambda>p s. readline prompt es line s)
      | Library_default \<Rightarrow> readline prompt es line s)"
| "readline prompt (Interrupt # es) line s =
     and_then (Some (deliver_SIGINT s)) (\<lambda>u s. readline prompt es line s)"

definition rl_free_line_state :: "'h world \<Rightarrow> 'h world" where
  "rl_free_line_state s = s\<lparr>trace := trace s @ [Rl_free_line_state]\<rparr>"

definition rl_cleanup_after_signal :: "'h world \<Rightarrow> 'h world" where
  "rl_cleanup_after_signal s = s\<lparr>trace := trace s @ [Rl_cleanup_after_signal]\<rparr>"

text \<open>What \<^verbatim>\<open>sigsetjmp\<close> returns when \<^verbatim>\<open>siglongjmp\<close> was given \<open>v\<close>.\<close>

definition sigsetjmp_value :: "int \<Rightarrow> int" where
  "sigsetjmp_value v = (if v = 0 then 1 else v)"

text \<open>
  \<^verbatim>\<open>lua_readline\<close> from the point where \<^verbatim>\<open>sigsetjmp\<close> returns \<open>sig \<noteq> 0\<close>. When the old
  handler is \<^verbatim>\<open>readline_sigint\<close> itself, calling it jumps back to this very point.
\<close>

partial_function (option) lua_readline_interrupted ::
  "sig_t \<Rightarrow> int \<Rightarrow> 'h world \<Rightarrow> (nat, 'h) res option" where
  "lua_readline_interrupted old_sigint sig s =
     (case signal old_sigint (rl_cleanup_after_signal (rl_free_line_state s)) of
        (replaced, s1) \<Rightarrow>
          if old_sigint \<noteq> SIG_DFL \<and> old_sigint \<noteq> SIG_ERR \<and> old_sigint \<noteq> SIG_IGN
          then
            (case old_sigint of
               Handler h \<Rightarrow>
                 (case call_handler h sig s1 of
                    Ok u s2 \<Rightarrow> Some (Ok 0 s2)
                  | Abrupt (Siglongjmp v) s2 \<Rightarrow>
                      lua_readline_interrupted old_sigint (sigsetjmp_value v) s2
                  | Abrupt x s2 \<Rightarrow> Some (Abrupt x s2)
                  | Fault f \<Rightarrow> Some (Fault f))
             | _ \<Rightarrow> Some (Ok 0 s1))
          else Some (Ok 0 s1))"

declare lua_readline_interrupted.simps [code]

text \<open>
  The part of \<^verbatim>\<open>lua_readline\<close> before \<^verbatim>\<open>sigsetjmp\<close>: the generator for argument 2 goes to
  the registry, the entry function of the library is set, and \<^verbatim>\<open>readline_sigint\<close> is
  installed. Returns the prompt and the old handler with the state.
\<close>

definition lua_readline_setup :: "'h world \<Rightarrow> string option \<times> sig_t \<times> 'h world" where
  "lua_readline_setup s =
     (case lua_tolstring 1 s of
        (prompt, len, s1) \<Rightarrow>
          (let type = lua_type 2 s1;
               s2 = lua_pushlightuserdata REGISTRY_KEY_GENERATOR s1;
               s3 = (case type of
                       LUA_TFUNCTION \<Rightarrow> lua_pushvalue 2 s2
                     | LUA_TTABLE \<Rightarrow> lua_pushcclosure F_lua_ipairsiterator 1 (lua_pushvalue 2 s2)
                     | _ \<Rightarrow> lua_pushcfunction F_lua_niliterator s2);
               s4 = lua_settable_registry s3;
               s5 = s4\<lparr>rl_completion_entry_function := F_gen_function\<rparr>
           in case signal (Handler F_readline_sigint) s5 of
                (old_sigint, s6) \<Rightarrow> (prompt, old_sigint, s6)))"

text \<open>
  Wrapper function for \<^verbatim>\<open>readline\<close>. \<open>events\<close> and \<open>line\<close> are what happens during the
  blocking call; \<open>at_eof\<close> is what \<^verbatim>\<open>feof\<close> says about the input stream afterwards.
  The result is the number of values returned to Lua, which are on top of the stack.
  The line belongs to the line-editing library until \<^verbatim>\<open>free(line)\<close>; it is passed by value
  here and its storage is not in \<open>heap\<close>.
\<close>

definition lua_readline ::
  "rl_event list \<Rightarrow> string option \<Rightarrow> bool \<Rightarrow> 'h world \<Rightarrow> (nat, 'h) res option" where
  "lua_readline events line at_eof s =
     (case lua_readline_setup s of
        (prompt, old_sigint, s1) \<Rightarrow>
          (case readline prompt events line s1 of
             None \<Rightarrow> None
           | Some (Abrupt (Siglongjmp v) s2) \<Rightarrow>
               lua_readline_interrupted old_sigint (sigsetjmp_value v) s2
           | Some (Abrupt x s2) \<Rightarrow> Some (Abrupt x s2)
           | Some (Fault f) \<Rightarrow> Some (Fault f)
           | Some (Ok ln s2) \<Rightarrow>
               (case signal old_sigint s2 of
                  (replaced, s3) \<Rightarrow>
                    if ln = None \<and> at_eof then Some (Ok 0 s3)
                    else Some (Ok 1 (lua_pushstring ln s3)))))"

text \<open>The values a C function returns to Lua: the top \<open>n\<close> of its stack.\<close>

definition returned_values :: "nat \<Rightarrow> 'h world \<Rightarrow> lua_value list" where
  "returned_values n s = drop (length (stack s) - n) (stack s)"

text \<open>What the caller finds when it takes one value from a list of results.\<close>

definition first_value :: "lua_value list \<Rightarrow> lua_value" where
  "first_value vs = (case vs of [] \<Rightarrow> LNil | v # _ \<Rightarrow> v)"

section \<open>The name accessors\<close>

text \<open>
  Modelled from the spec: the value of \<^verbatim>\<open>rl_readline_name\<close> before the first
  \<^verbatim>\<open>lua_setname\<close>. The variable belongs to the line-editing library, whose declaration of
  it is not part of the source; the specification gives the application identifier an
  ``empty-string default''. The initialiser of a C variable cannot call \<^verbatim>\<open>malloc\<close>, so the
  default lies in static storage: the empty C string, one byte 0. The properties below
  hold for a default of any content.
\<close>

definition rl_readline_name_default :: ptr where
  "rl_readline_name_default = Static [NUL]"

text \<open>Wrapper function to get \<^verbatim>\<open>rl_readline_name\<close>.\<close>

definition lua_getname :: "'h world \<Rightarrow> (nat, 'h) res" where
  "lua_getname s =
     (case rl_readline_name s of
        NULL \<Rightarrow> Ok 1 (lua_pushstring None s)
      | Addr a \<Rightarrow>
          (case heap s a of
             None \<Rightarrow> Fault Undefined_behaviour
           | Some bs \<Rightarrow> Ok 1 (lua_pushstring (Some bs) s))
      | Static bs \<Rightarrow> Ok 1 (lua_pushstring (Some bs) s))"

text \<open>Wrapper function to set \<^verbatim>\<open>rl_readline_name\<close>.\<close>

definition lua_setname :: "'h world \<Rightarrow> (nat, 'h) res" where
  "lua_setname s =
     (case lua_tolstring 1 s of
        (name, len, s1) \<Rightarrow>
          (case (if rl_readline_name s1 \<noteq> NULL then free (rl_readline_name s1) s1 else Some s1) of
             None \<Rightarrow> Fault Undefined_behaviour
           | Some s2 \<Rightarrow>
               (case clonestr name s2 of
                  Ok p s3 \<Rightarrow>
                    if p = NULL then luaL_error ''Out of memory'' (s3\<lparr>rl_readline_name := p\<rparr>)
                    else Ok 0 (s3\<lparr>rl_readline_name := p\<rparr>)
                | Abrupt x s3 \<Rightarrow> Abrupt x s3
                | Fault f \<Rightarrow> Fault f)))"

section \<open>One generation, as the line-editing library pulls it\<close>

text \<open>
  The library asks the entry function for candidates of one word: the first call has
  state 0, the following ones a state that is not 0, and the null pointer ends the
  generation. \<open>n\<close> candidates have been received so far; \<open>acc\<close> holds their texts, last
  first.
\<close>

partial_function (option) rl_completion_matches_from ::
  "string \<Rightarrow> nat \<Rightarrow> string list \<Rightarrow> 'h world \<Rightarrow> (string list, 'h) res option" where
  "rl_completion_matches_from text n acc s =
     (case gen_function text (int n) s of
        None \<Rightarrow> None
      | Some (Abrupt x s1) \<Rightarrow> Some (Abrupt x s1)
      | Some (Fault f) \<Rightarrow> Some (Fault f)
      | Some (Ok p s1) \<Rightarrow>
          if p = NULL then Some (Ok (rev acc) s1)
          else rl_completion_matches_from text (Suc n) (string_at p s1 # acc) s1)"

declare rl_completion_matches_from.simps [code]

definition rl_completion_matches :: "string \<Rightarrow> 'h world \<Rightarrow> (string list, 'h) res option" where
  "rl_completion_matches text s = rl_completion_matches_from text 0 [] s"

section \<open>Auxiliary notions for the properties\<close>

text \<open>
  \<^verbatim>\<open>rl_readline_name\<close> is null or points at a live block of the heap: what \<^verbatim>\<open>lua_setname\<close>
  takes for granted when it frees the old name. The library's default is neither.
\<close>

definition name_allocated :: "'h world \<Rightarrow> bool" where
  "name_allocated s =
     (case rl_readline_name s of
        NULL \<Rightarrow> True
      | Addr a \<Rightarrow> heap s a \<noteq> None
      | Static bs \<Rightarrow> False)"

text \<open>
  The host calls \<^verbatim>\<open>setname(name)\<close> and then \<^verbatim>\<open>getname()\<close>: the values the second call
  returns, if both return (\<open>None\<close> if one of them does not).
\<close>

definition setname_then_getname :: "string \<Rightarrow> 'h world \<Rightarrow> lua_value list option" where
  "setname_then_getname name s =
     (case lua_setname (s\<lparr>stack := [LString name]\<rparr>) of
        Ok n s1 \<Rightarrow>
          (case lua_getname (s1\<lparr>stack := []\<rparr>) of
             Ok m s2 \<Rightarrow> Some (returned_values m s2)
           | _ \<Rightarrow> None)
      | _ \<Rightarrow> None)"

subsection \<open>Generators in the registry\<close>

text \<open>
  The generator slot holds a closure of \<^verbatim>\<open>lua_niliterator\<close>: what the default branch of
  \<^verbatim>\<open>lua_readline\<close> stores when it is given no completion source.
\<close>

definition empty_generator_installed :: "'h world \<Rightarrow> bool" where
  "empty_generator_installed s =
     (case registry s (LLightUserdata REGISTRY_KEY_GENERATOR) of
        LFunction (CClosure c) \<Rightarrow> c < length (closures s) \<and> fst (closures s ! c) = F_lua_niliterator
      | _ \<Rightarrow> False)"

text \<open>
  The case-sensitive test of \<^verbatim>\<open>lua_iterstep\<close>, as the specification words it: the entry is
  at least as long as the prefix and starts with it.
\<close>

definition starts_with :: "string \<Rightarrow> string \<Rightarrow> bool" where
  "starts_with p e = (length p \<le> length e \<and> take (length p) e = p)"

text \<open>
  The generator slot holds a closure of \<^verbatim>\<open>lua_ipairsiterator\<close> over a table whose values at
  \<open>1, \<dots>, n\<close> are the strings \<open>entries\<close>: what \<^verbatim>\<open>lua_readline\<close> stores for such a table.
\<close>

definition table_generator_installed :: "string list \<Rightarrow> 'h world \<Rightarrow> bool" where
  "table_generator_installed entries s =
     (case registry s (LLightUserdata REGISTRY_KEY_GENERATOR) of
        LFunction (CClosure c) \<Rightarrow>
          c < length (closures s)
          \<and> closures s ! c = (F_lua_ipairsiterator, [LTable (map LString entries)])
      | _ \<Rightarrow> False)"

subsection \<open>An example host\<close>

text \<open>
  Function 0 is a generator: it returns function 1 and resets the host's counter.
  Function 1 returns \<open>apple\<close>, then \<open>bar\<close>, then nil, counting its calls. Every other
  function raises an error. Signal handler 0 returns and leaves everything as it is;
  every other handler ends the process. The process has just started: nothing is
  allocated and the name is the library's default.
\<close>

definition example_functions :: "nat \<Rightarrow> lua_value list \<Rightarrow> nat \<Rightarrow> (lua_value + lua_value list) \<times> nat" where
  "example_functions i args h =
     (if i = 0 then (Inr [LFunction (LuaFunction 1)], 0)
      else if i = 1 then
        (if h = 0 then Inr [LString ''apple''] else if h = 1 then Inr [LString ''bar''] else Inr [LNil],
         Suc h)
      else (Inl (LString ''boom''), h))"

definition example_handlers :: "nat \<Rightarrow> int \<Rightarrow> nat \<times> sig_t \<Rightarrow> (nat \<times> sig_t) option" where
  "example_handlers i sig st = (if i = 0 then Some st else None)"

definition example_world :: "nat world" where
  "example_world =
     \<lparr>stack = [], ci_func = None, closures = [], registry = (\<lambda>k. LNil),
      globals = (\<lambda>name. if name = ''ipairs'' then LFunction (LibFunction F_ipairs) else LNil),
      host = 0, lua_functions = example_functions, signal_handlers = example_handlers,
      trace = [], rl_completion_entry_function = Library_default,
      rl_readline_name = rl_readline_name_default,
      heap = (\<lambda>a. None), brk = 0, out_of_memory = False, sigint = SIG_DFL\<rparr>"

subsection \<open>What a generation leaves alone\<close>

text \<open>
  The parts of the state that calls of the completion entry function do not change: the
  generator slot of the registry, the disposition of \<^verbatim>\<open>SIGINT\<close>, the C globals, the code
  of the host, the flag of the allocator, and the events other than calls of host
  functions.
\<close>

fun host_call :: "event \<Rightarrow> bool" where
  "host_call (Lua_function_called i args) = True"
| "host_call e = False"

definition kept ::
  "'h world \<Rightarrow>
   lua_value \<times> sig_t \<times> rl_compentry_func \<times> ptr \<times>
   (nat \<Rightarrow> lua_value list \<Rightarrow> 'h \<Rightarrow> (lua_value + lua_value list) \<times> 'h) \<times>
   (nat \<Rightarrow> int \<Rightarrow> 'h \<times> sig_t \<Rightarrow> ('h \<times> sig_t) option) \<times>
   (string \<Rightarrow> lua_value) \<times> bool \<times> event list" where
  "kept s = (registry s (LLightUserdata REGISTRY_KEY_GENERATOR), sigint s,
             rl_completion_entry_function s, rl_readline_name s, lua_functions s,
             signal_handlers s, globals s, out_of_memory s,
             filter (\<lambda>e. \<not> host_call e) (trace s))"

text \<open>A result reached from \<open>s\<close> keeps these parts, and leaves abruptly by a Lua error only.\<close>

fun res_kept :: "'h world \<Rightarrow> ('a, 'h) res \<Rightarrow> bool" where
  "res_kept s (Ok x s') = (kept s' = kept s)"
| "res_kept s (Abrupt x s') = (kept s' = kept s \<and> (case x of Lua_error e \<Rightarrow> True | _ \<Rightarrow> False))"
| "res_kept s (Fault f) = True"

subsection \<open>What setting up a read changes\<close>

text \<open>Everything but the Lua stack and the closure store.\<close>

definition process ::
  "'h world \<Rightarrow>
   (lua_value \<Rightarrow> lua_value) \<times> sig_t \<times> rl_compentry_func \<times> ptr \<times>
   (nat \<Rightarrow> lua_value list \<Rightarrow> 'h \<Rightarrow> (lua_value + lua_value list) \<times> 'h) \<times>
   (nat \<Rightarrow> int \<Rightarrow> 'h \<times> sig_t \<Rightarrow> ('h \<times> sig_t) option) \<times>
   (string \<Rightarrow> lua_value) \<times> bool \<times> event list \<times> 'h \<times> (nat \<Rightarrow> string option) \<times> nat" where
  "process s = (registry s, sigint s, rl_completion_entry_function s, rl_readline_name s,
     lua_functions s, signal_handlers s, globals s, out_of_memory s, trace s, host s, heap s, brk s)"

text \<open>
  The generator that \<^verbatim>\<open>lua_readline\<close>, called in state \<open>s\<close>, stores in the registry: its
  second argument when that is a function, and otherwise the closure it creates, which
  gets the next free address of the closure store.
\<close>

definition generator_for :: "'h world \<Rightarrow> lua_value" where
  "generator_for s =
     (if lua_type 2 s = LUA_TFUNCTION then value_at (index2adr 2 s) s
      else LFunction (CClosure (length (closures s))))"

text \<open>
  What the blocking read can end in once the handler and the entry function of the binding
  are installed: it returns the line, a host function raises an error, or the handler
  jumps with \<^verbatim>\<open>SIGINT\<close>.
\<close>

fun read_result :: "string option \<Rightarrow> 'h world \<Rightarrow> (string option, 'h) res \<Rightarrow> bool" where
  "read_result line s (Ok ln s') = (ln = line \<and> kept s' = kept s)"
| "read_result line s (Abrupt (Lua_error e) s') = (kept s' = kept s)"
| "read_result line s (Abrupt (Siglongjmp v) s') = (v = SIGINT \<and> kept s' = kept s)"
| "read_result line s (Abrupt Process_exit s') = False"
| "read_result line s (Fault f) = True"

subsection \<open>The example host in a read\<close>

text \<open>The example host calls \<^verbatim>\<open>readline\<close> with the arguments \<open>args\<close> while \<^verbatim>\<open>SIGINT\<close> has disposition \<open>d\<close>.\<close>

definition example_call :: "lua_value list \<Rightarrow> sig_t \<Rightarrow> nat world" where
  "example_call args d = example_world\<lparr>stack := args, sigint := d\<rparr>"

text \<open>
  The example host inside a read: the generator \<open>g\<close> is in the registry, the closure store
  is \<open>cl\<close>, and the handler and the entry function of the binding are installed.
\<close>

definition example_reading :: "lua_value list \<Rightarrow> lua_value \<Rightarrow> (cfunction \<times> lua_value list) list \<Rightarrow> nat world" where
  "example_reading args g cl =
     example_world\<lparr>stack := args, closures := cl,
       registry := (\<lambda>k. LNil)(LLightUserdata REGISTRY_KEY_GENERATOR := g),
       rl_completion_entry_function := F_gen_function, sigint := Handler F_readline_sigint\<rparr>"

section \<open>Properties\<close>

subsection \<open>C strings\<close>

lemma c_str_terminated: "c_str (c_str bs @ NUL # rest) = c_str bs"
proof -
  have "takeWhile (\<lambda>c. c \<noteq> NUL) (takeWhile (\<lambda>c. c \<noteq> NUL) bs @ NUL # rest)
        = takeWhile (\<lambda>c. c \<noteq> NUL) bs @ takeWhile (\<lambda>c. c \<noteq> NUL) (NUL # rest)"
    by (rule takeWhile_append2) (auto dest: set_takeWhileD)
  then show ?thesis by (simp add: c_str_def)
qed

lemma c_str_strlcpy: "c_str (strlcpy_bytes bs (strlen bs + 1)) = c_str bs"
  by (simp add: strlcpy_bytes_def strlen_def c_str_terminated)

lemma c_str_no_NUL: "NUL \<notin> set bs \<Longrightarrow> c_str bs = bs"
  by (auto simp: c_str_def takeWhile_eq_all_conv)

subsection \<open>The name accessors\<close>

lemma tolstring_arg1: "stack s = LString name # rest \<Longrightarrow> lua_tolstring 1 s = (Some name, length name, s)"
  by (simp add: lua_tolstring_def index2adr_def)

lemma setname_ok:
  assumes "\<not> out_of_memory s" and "name_allocated s"
  shows "lua_setname (s\<lparr>stack := [LString name]\<rparr>) =
     Ok 0 (s\<lparr>stack := [LString name],
             heap := (case rl_readline_name s of Addr a \<Rightarrow> (heap s)(a := None) | _ \<Rightarrow> heap s)
                       (brk s \<mapsto> strlcpy_bytes name (strlen name + 1)),
             brk := Suc (brk s), rl_readline_name := Addr (brk s)\<rparr>)"
  using assms
  by (auto simp: lua_setname_def tolstring_arg1 name_allocated_def free_def clonestr_def
      malloc_def strlcpy_def split: ptr.splits option.splits)

lemma getname_after:
  assumes "rl_readline_name s = Addr a" and "heap s a = Some bs"
  shows "lua_getname (s\<lparr>stack := []\<rparr>) = Ok 1 (s\<lparr>stack := [LString (c_str bs)]\<rparr>)"
  using assms by (simp add: lua_getname_def lua_pushstring_def push_def)

lemma c_str_strlcpy_Suc: "c_str (strlcpy_bytes bs (Suc (strlen bs))) = c_str bs"
  using c_str_strlcpy [of bs] by simp

text \<open>
  Claim C9. \<^verbatim>\<open>set_app_name\<close> is to raise an out-of-memory error when the storage for the
  copy cannot be allocated. The code does not get there: \<^verbatim>\<open>clonestr\<close> hands the null
  pointer from \<^verbatim>\<open>malloc\<close> to \<^verbatim>\<open>strlcpy\<close>, which writes through it, before
  \<^verbatim>\<open>lua_setname\<close> tests the result. With memory exhausted and a string argument,
  \<^verbatim>\<open>clonestr\<close> is undefined, and the call of \<^verbatim>\<open>lua_setname\<close> ends in undefined behaviour,
  not in a Lua error, whatever the current name is.
\<close>

theorem setname_out_of_memory:
  assumes "out_of_memory s" and "stack s = LString name # rest"
  shows "clonestr (Some name) s = Fault Undefined_behaviour
       \<and> lua_setname s = Fault Undefined_behaviour"
  using assms
  by (auto simp: lua_setname_def tolstring_arg1 free_def clonestr_def
      malloc_def strlcpy_def strlen_def split: ptr.splits option.splits)

text \<open>The hypotheses hold for \<^verbatim>\<open>setname("repl")\<close> in the example host without memory.\<close>

theorem setname_out_of_memory_witness:
  "out_of_memory (example_world\<lparr>out_of_memory := True, stack := [LString ''repl'']\<rparr>)
   \<and> stack (example_world\<lparr>out_of_memory := True, stack := [LString ''repl'']\<rparr>) = LString ''repl'' # []
   \<and> clonestr (Some ''repl'') (example_world\<lparr>out_of_memory := True, stack := [LString ''repl'']\<rparr>)
       = Fault Undefined_behaviour
   \<and> lua_setname (example_world\<lparr>out_of_memory := True, stack := [LString ''repl'']\<rparr>)
       = Fault Undefined_behaviour"
  using setname_out_of_memory [of "example_world\<lparr>out_of_memory := True, stack := [LString ''repl'']\<rparr>" "''repl''" "[]"]
  by (simp add: example_world_def)

text \<open>
  Claim C8. \<^verbatim>\<open>set_app_name("repl")\<close> then \<^verbatim>\<open>get_app_name()\<close> is to return \<open>repl\<close>, the old
  name's storage being released. \<^verbatim>\<open>lua_setname\<close> releases the old name with \<^verbatim>\<open>free\<close>
  whenever it is not null. At the first \<^verbatim>\<open>set_app_name\<close> of a process the old name is the
  default of the line-editing library, in static storage: \<^verbatim>\<open>free\<close> is given a pointer
  that no \<^verbatim>\<open>malloc\<close> returned, which is undefined, before the new name is copied. So from
  a name in static storage, of any content, \<^verbatim>\<open>lua_setname\<close> ends in undefined behaviour
  for every argument string, and the two calls do not both return.
\<close>

theorem setname_frees_default:
  assumes "rl_readline_name s = Static d"
  shows "lua_setname (s\<lparr>stack := [LString name]\<rparr>) = Fault Undefined_behaviour
       \<and> setname_then_getname name s = None"
  using assms
  by (simp add: setname_then_getname_def lua_setname_def tolstring_arg1 free_def)

text \<open>
  The example host has just started: \<^verbatim>\<open>get_app_name()\<close> returns the empty default, and
  \<^verbatim>\<open>set_app_name("repl")\<close> frees it.
\<close>

theorem setname_frees_default_witness:
  "rl_readline_name example_world = Static [NUL]
   \<and> lua_getname example_world = Ok 1 (example_world\<lparr>stack := [LString []]\<rparr>)
   \<and> lua_setname (example_world\<lparr>stack := [LString ''repl'']\<rparr>) = Fault Undefined_behaviour
   \<and> setname_then_getname ''repl'' example_world = None"
  using setname_frees_default [of example_world "[NUL]" "''repl''"]
  by (simp add: example_world_def rl_readline_name_default_def lua_getname_def
      lua_pushstring_def push_def c_str_def)

text \<open>
  For comparison, the accessors from a name that is null or a live block of the heap
  (a state that only the C host can bring about, by assigning the variable itself),
  with memory available. \<^verbatim>\<open>set_app_name(name)\<close> then \<^verbatim>\<open>get_app_name()\<close> returns the bytes of
  \<open>name\<close> before its first 0 byte, since \<^verbatim>\<open>clonestr\<close> copies a C string (all of \<open>name\<close>
  when it has no such byte, by \<open>c_str_no_NUL\<close>). The name is then stored in a live block;
  a second \<^verbatim>\<open>set_app_name(other)\<close> frees that block, allocates one new block and leaves
  every other block alone, and \<^verbatim>\<open>get_app_name()\<close> then returns \<open>other\<close>, cut in the same
  way.
\<close>

lemma setname_then_getname_allocated:
  assumes "\<not> out_of_memory s" and "name_allocated s"
  shows "setname_then_getname name s = Some [LString (c_str name)]
    \<and> (\<exists>s1 a1. lua_setname (s\<lparr>stack := [LString name]\<rparr>) = Ok 0 s1
          \<and> rl_readline_name s1 = Addr a1 \<and> heap s1 a1 \<noteq> None
          \<and> (\<exists>s2 a2. lua_setname (s1\<lparr>stack := [LString other]\<rparr>) = Ok 0 s2
                \<and> heap s2 a1 = None
                \<and> rl_readline_name s2 = Addr a2 \<and> heap s2 a2 \<noteq> None
                \<and> dom (heap s2) = insert a2 (dom (heap s1) - {a1})
                \<and> lua_getname (s2\<lparr>stack := []\<rparr>) = Ok 1 (s2\<lparr>stack := [LString (c_str other)]\<rparr>)))"
proof -
  let ?s1 = "s\<lparr>stack := [LString name],
             heap := (case rl_readline_name s of Addr a \<Rightarrow> (heap s)(a := None) | _ \<Rightarrow> heap s)
                       (brk s \<mapsto> strlcpy_bytes name (strlen name + 1)),
             brk := Suc (brk s), rl_readline_name := Addr (brk s)\<rparr>"
  have set1: "lua_setname (s\<lparr>stack := [LString name]\<rparr>) = Ok 0 ?s1"
    by (rule setname_ok [OF assms])
  have get1: "lua_getname (?s1\<lparr>stack := []\<rparr>) = Ok 1 (?s1\<lparr>stack := [LString (c_str name)]\<rparr>)"
    using getname_after [of ?s1 "brk s" "strlcpy_bytes name (strlen name + 1)"]
    by (simp add: c_str_strlcpy_Suc)
  have first: "setname_then_getname name s = Some [LString (c_str name)]"
    using set1 get1 by (simp add: setname_then_getname_def returned_values_def)
  have oom1: "\<not> out_of_memory ?s1" using assms by simp
  have al1: "name_allocated ?s1" by (simp add: name_allocated_def)
  let ?s2 = "?s1\<lparr>stack := [LString other],
             heap := ((heap ?s1)(brk s := None))
                       (Suc (brk s) \<mapsto> strlcpy_bytes other (strlen other + 1)),
             brk := Suc (Suc (brk s)), rl_readline_name := Addr (Suc (brk s))\<rparr>"
  have set2: "lua_setname (?s1\<lparr>stack := [LString other]\<rparr>) = Ok 0 ?s2"
    using setname_ok [OF oom1 al1, of other] by simp
  have get2: "lua_getname (?s2\<lparr>stack := []\<rparr>) = Ok 1 (?s2\<lparr>stack := [LString (c_str other)]\<rparr>)"
    using getname_after [of ?s2 "Suc (brk s)" "strlcpy_bytes other (strlen other + 1)"]
    by (simp add: c_str_strlcpy_Suc)
  have dom2: "dom (heap ?s2) = insert (Suc (brk s)) (dom (heap ?s1) - {brk s})"
    by (auto split: if_splits)
  have second: "\<exists>s2 a2. lua_setname (?s1\<lparr>stack := [LString other]\<rparr>) = Ok 0 s2
                \<and> heap s2 (brk s) = None
                \<and> rl_readline_name s2 = Addr a2 \<and> heap s2 a2 \<noteq> None
                \<and> dom (heap s2) = insert a2 (dom (heap ?s1) - {brk s})
                \<and> lua_getname (s2\<lparr>stack := []\<rparr>) = Ok 1 (s2\<lparr>stack := [LString (c_str other)]\<rparr>)"
    apply (rule exI [of _ ?s2])
    apply (rule exI [of _ "Suc (brk s)"])
    apply (intro conjI)
         apply (rule set2)
        apply simp
       apply simp
      apply simp
     apply (rule dom2)
    apply (rule get2)
    done
  have "\<exists>s1 a1. lua_setname (s\<lparr>stack := [LString name]\<rparr>) = Ok 0 s1
          \<and> rl_readline_name s1 = Addr a1 \<and> heap s1 a1 \<noteq> None
          \<and> (\<exists>s2 a2. lua_setname (s1\<lparr>stack := [LString other]\<rparr>) = Ok 0 s2
                \<and> heap s2 a1 = None
                \<and> rl_readline_name s2 = Addr a2 \<and> heap s2 a2 \<noteq> None
                \<and> dom (heap s2) = insert a2 (dom (heap s1) - {a1})
                \<and> lua_getname (s2\<lparr>stack := []\<rparr>) = Ok 1 (s2\<lparr>stack := [LString (c_str other)]\<rparr>))"
    apply (rule exI [of _ ?s1])
    apply (rule exI [of _ "brk s"])
    apply (intro conjI)
       apply (rule set1)
      apply simp
     apply simp
    apply (rule second)
    done
  with first show ?thesis by blast
qed

subsection \<open>What a generation leaves alone\<close>

lemma kept_stack [simp]: "kept (s\<lparr>stack := st\<rparr>) = kept s"
  and kept_ci [simp]: "kept (s\<lparr>ci_func := c\<rparr>) = kept s"
  and kept_closures [simp]: "kept (s\<lparr>closures := cl\<rparr>) = kept s"
  and kept_host [simp]: "kept (s\<lparr>host := h\<rparr>) = kept s"
  and kept_heap [simp]: "kept (s\<lparr>heap := hp\<rparr>) = kept s"
  and kept_brk [simp]: "kept (s\<lparr>brk := b\<rparr>) = kept s"
  by (simp_all add: kept_def)

lemma kept_trace_call [simp]:
  "kept (s\<lparr>trace := trace s @ [Lua_function_called i args]\<rparr>) = kept s"
  by (simp add: kept_def)

lemma kept_cong: "kept s' = kept s \<Longrightarrow> kept (s'\<lparr>stack := st, ci_func := c\<rparr>) = kept s"
  by simp

lemma kept_set_slot [simp]: "kept (set_slot sl v s) = kept s"
  by (cases sl) (simp_all split: option.splits)

lemma kept_api [simp]:
  "kept (push v s) = kept s"
  "kept (lua_pushvalue i s) = kept s"
  "kept (lua_pushlightuserdata p s) = kept s"
  "kept (lua_pushstring so s) = kept s"
  "kept (lua_pushcclosure f n s) = kept s"
  "kept (lua_pushcfunction f s) = kept s"
  "kept (lua_pop n s) = kept s"
  "kept (lua_insert i s) = kept s"
  "kept (lua_replace i s) = kept s"
  "kept (lua_gettable_registry s) = kept s"
  "kept (lua_getglobal name s) = kept s"
  by (simp_all add: push_def lua_pushvalue_def lua_pushlightuserdata_def lua_pushstring_def
      lua_pushcclosure_def lua_pushcfunction_def lua_pop_def lua_insert_def lua_replace_def
      lua_gettable_registry_def lua_getglobal_def split: slot.splits)

lemma kept_tolstring [simp]: "lua_tolstring i s = (r, n, s') \<Longrightarrow> kept s' = kept s"
  by (auto simp: lua_tolstring_def split: lua_value.splits)

lemma kept_malloc [simp]: "malloc n s = (p, s') \<Longrightarrow> kept s' = kept s"
  by (auto simp: malloc_def split: if_splits)

lemma kept_strncpy [simp]: "strncpy d src n s = Some s' \<Longrightarrow> kept s' = kept s"
  by (auto simp: strncpy_def split: if_splits option.splits ptr.splits)

lemma precall_kept:
  assumes run: "\<And>f t r. run f t = Some r \<Longrightarrow> res_kept t r"
    and call: "precall run fn args below nr s = Some r"
  shows "res_kept s r"
proof (cases fn)
  case (CClosure a)
  show ?thesis
  proof (cases "length (closures s) \<le> a")
    case True
    with call CClosure show ?thesis by auto
  next
    case nd: False
    let ?t = "s\<lparr>stack := args, ci_func := Some a\<rparr>"
    show ?thesis
    proof (cases "run (fst (closures s ! a)) ?t")
      case None
      with call CClosure nd show ?thesis by simp
    next
      case (Some q)
      from run [OF Some] have "res_kept ?t q" .
      with call CClosure nd Some show ?thesis
        by (cases q) auto
    qed
  qed
next
  case (LuaFunction i)
  with call show ?thesis
    by (auto simp: kept_def split: prod.splits sum.splits)
next
  case (LibFunction l)
  with call show ?thesis
    by (cases l) (auto split: prod.splits sum.splits)
qed

lemma luaD_call_kept:
  assumes run: "\<And>f t r. run f t = Some r \<Longrightarrow> res_kept t r"
    and call: "luaD_call run na nr s = Some r"
  shows "res_kept s r"
proof (cases "length (stack s) < Suc na")
  case True
  with call show ?thesis by (auto simp: luaD_call_def)
next
  case False
  show ?thesis
  proof (cases "stack s ! (length (stack s) - Suc na)")
    case (LFunction fn)
    with call False have "precall run fn (drop (length (stack s) - na) (stack s))
               (take (length (stack s) - Suc na) (stack s)) nr s = Some r"
      by (simp add: luaD_call_def)
    from precall_kept [OF run this] show ?thesis .
  qed (use call False in \<open>auto simp: luaD_call_def\<close>)
qed

lemma run_leaf_kept: "run_leaf f t = Some r \<Longrightarrow> res_kept t r"
  by (cases f) (auto simp: lua_returnnil_def lua_niliterator_def)

lemma lua_call_lib_kept: "lua_call_lib na nr s = Some r \<Longrightarrow> res_kept s r"
  unfolding lua_call_lib_def by (rule luaD_call_kept [OF run_leaf_kept])

lemma res_kept_trans: "kept s1 = kept s \<Longrightarrow> res_kept s1 r \<Longrightarrow> res_kept s r"
  by (cases r) auto

lemma lua_iterstep_loop_kept:
  assumes "lua_iterstep_loop pref len s = Some r"
  shows "res_kept s r"
proof (rule lua_iterstep_loop.raw_induct [where P = "\<lambda>pref len s r. res_kept s r", OF _ assms], goal_cases)
  case (1 loop pref len s r)
  let ?s0 = "lua_pushvalue (lua_upvalueindex 3)
               (lua_pushvalue (lua_upvalueindex 2)
                 (lua_pushvalue (lua_upvalueindex 1) s))"
  have k0: "kept ?s0 = kept s" by simp
  show ?case
  proof (cases "lua_call_lib 2 2 ?s0")
    case None
    with 1(2) show ?thesis by simp
  next
    case (Some q)
    from lua_call_lib_kept [OF Some] have kq: "res_kept ?s0 q" .
    show ?thesis
    proof (cases q)
      case (Ok u s1)
      let ?s2 = "lua_replace (lua_upvalueindex 3) (lua_insert (- 2) s1)"
      from kq Ok k0 have k2: "kept ?s2 = kept s" by simp
      obtain res rlen s3 where tl: "lua_tolstring (- 1) ?s2 = (res, rlen, s3)"
        by (cases "lua_tolstring (- 1) ?s2") auto
      from kept_tolstring [OF tl] k2 have k3: "kept s3 = kept s" by simp
      then have k4: "kept (lua_pop 1 s3) = kept s" by simp
      have rec: "loop pref len (lua_pop 1 s3) = Some r \<Longrightarrow> res_kept s r"
        using 1(1) k4 res_kept_trans by blast
      from 1(2) Some Ok tl show ?thesis
        using k2 k3 rec
        by (auto simp: Let_def split: if_splits option.splits)
    next
      case (Abrupt x s1)
      with 1(2) Some kq k0 show ?thesis by auto
    next
      case (Fault f)
      with 1(2) Some show ?thesis by auto
    qed
  qed
qed


lemma lua_iterstep_kept: "lua_iterstep s = Some r \<Longrightarrow> res_kept s r"
proof -
  assume a: "lua_iterstep s = Some r"
  obtain pref len s1 where tl: "lua_tolstring (lua_upvalueindex 4) s = (pref, len, s1)"
    by (cases "lua_tolstring (lua_upvalueindex 4) s") auto
  from a tl have "lua_iterstep_loop pref len s1 = Some r" by (simp add: lua_iterstep_def)
  from kept_tolstring [OF tl] lua_iterstep_loop_kept [OF this] show ?thesis
    by (rule res_kept_trans)
qed

lemma and_then_Some:
  "and_then m k = Some r \<Longrightarrow>
     (\<exists>x s1. m = Some (Ok x s1) \<and> k x s1 = Some r)
     \<or> (\<exists>x s1. m = Some (Abrupt x s1) \<and> r = Abrupt x s1)
     \<or> (\<exists>f. m = Some (Fault f) \<and> r = Fault f)"
  by (cases "(m, k)" rule: and_then.cases) auto

lemma and_then_kept:
  assumes m: "\<And>q. m = Some q \<Longrightarrow> res_kept s q"
    and k: "\<And>x s1 q. m = Some (Ok x s1) \<Longrightarrow> k x s1 = Some q \<Longrightarrow> res_kept s1 q"
    and r: "and_then m k = Some r"
  shows "res_kept s r"
  using and_then_Some [OF r]
proof (elim disjE exE conjE)
  fix x s1 assume a: "m = Some (Ok x s1)" "k x s1 = Some r"
  from m [OF a(1)] have "kept s1 = kept s" by simp
  from this k [OF a] show ?thesis by (rule res_kept_trans)
next
  fix x s1 assume a: "m = Some (Abrupt x s1)" "r = Abrupt x s1"
  with m [OF a(1)] show ?thesis by simp
next
  fix f assume "m = Some (Fault f)" "r = Fault f"
  then show ?thesis by simp
qed

lemma lua_ipairsiterator_kept: "lua_ipairsiterator s = Some r \<Longrightarrow> res_kept s r"
  unfolding lua_ipairsiterator_def
proof (erule and_then_kept [rotated 2], goal_cases)
  case (1 q)
  from lua_call_lib_kept [OF 1] show ?case
    by (rule res_kept_trans [rotated]) simp
next
  case (2 x s1 q)
  then show ?case by auto
qed

lemma run_cfunction_kept: "run_cfunction f t = Some r \<Longrightarrow> res_kept t r"
  by (cases f) (auto simp: lua_returnnil_def lua_niliterator_def
      intro: lua_iterstep_kept lua_ipairsiterator_kept)

lemma lua_call_kept: "lua_call na nr s = Some r \<Longrightarrow> res_kept s r"
  unfolding lua_call_def by (rule luaD_call_kept [OF run_cfunction_kept])

lemma adjust_results_Suc0: "adjust_results (Suc 0) rs = [first_value rs]"
  by (cases rs) (simp_all add: adjust_results_def first_value_def)

lemma adjust_results_1: "adjust_results 1 rs = [first_value rs]"
  by (simp add: adjust_results_Suc0)

lemma length_adjust_results [simp]: "length (adjust_results n rs) = n"
  by (simp add: adjust_results_def)

lemma precall_stack:
  "precall run fn args below nr s = Some (Ok u s') \<Longrightarrow> \<exists>rs. stack s' = below @ adjust_results nr rs"
proof (cases fn)
  case (LibFunction l)
  assume "precall run fn args below nr s = Some (Ok u s')"
  with LibFunction show ?thesis
    by (cases l) (auto split: sum.splits)
qed (auto split: prod.splits sum.splits if_splits option.splits res.splits)

lemma luaD_call_stack:
  "luaD_call run na nr s = Some (Ok u s') \<Longrightarrow>
     \<exists>rs. stack s' = take (length (stack s) - Suc na) (stack s) @ adjust_results nr rs"
  by (auto simp: luaD_call_def split: if_splits lua_value.splits dest: precall_stack)

lemma store_iterator:
  assumes "stack s = below @ [v]"
  shows "lua_settable_registry (lua_insert (- 2) (lua_pushlightuserdata k s))
         = s\<lparr>registry := (registry s)(LLightUserdata k := v), stack := below\<rparr>"
  using assms
  by (simp add: lua_settable_registry_def lua_insert_def lua_pushlightuserdata_def push_def
      index2adr_def LUA_REGISTRYINDEX_def butlast_append)

lemma lua_initgenerator_kept: "lua_initgenerator text s = Some r \<Longrightarrow> res_kept s r"
  unfolding lua_initgenerator_def
proof (erule and_then_kept [rotated 2], goal_cases)
  case (1 q)
  from lua_call_kept [OF 1] show ?case
    by (rule res_kept_trans [rotated]) simp
next
  case (2 x s1 q)
  from luaD_call_stack [OF 2(1) [unfolded lua_call_def]]
  obtain below v where st: "stack s1 = below @ [v]"
    by (auto simp: adjust_results_Suc0)
  from 2(2) show ?case
    by (auto simp: store_iterator [OF st] kept_def REGISTRY_KEY_GENERATOR_def REGISTRY_KEY_ITERATOR_def)
qed

lemma lua_stepgenerator_kept: "lua_stepgenerator s = Some r \<Longrightarrow> res_kept s r"
  unfolding lua_stepgenerator_def
proof (erule and_then_kept [rotated 2], goal_cases)
  case (1 q)
  from lua_call_kept [OF 1] show ?case
    by (rule res_kept_trans [rotated]) simp
next
  case (2 x s1 q)
  then show ?case
    by (auto split: if_splits prod.splits option.splits
        dest!: kept_tolstring kept_malloc kept_strncpy)
qed

lemma gen_function_kept: "gen_function text state s = Some r \<Longrightarrow> res_kept s r"
  unfolding gen_function_def
  by (auto split: if_splits intro: lua_stepgenerator_kept
      elim!: and_then_kept [rotated 2] lua_initgenerator_kept)

subsection \<open>Setting up a read\<close>

lemma process_set_slot [simp]: "process (set_slot sl v s) = process s"
  by (cases sl) (simp_all add: process_def split: option.splits)

lemma process_api [simp]:
  "process (push v s) = process s"
  "process (lua_pushvalue i s) = process s"
  "process (lua_pushlightuserdata p s) = process s"
  "process (lua_pushstring so s) = process s"
  "process (lua_pushcclosure f n s) = process s"
  "process (lua_pushcfunction f s) = process s"
  "process (lua_pop n s) = process s"
  by (simp_all add: push_def lua_pushvalue_def lua_pushlightuserdata_def lua_pushstring_def
      lua_pushcclosure_def lua_pushcfunction_def lua_pop_def process_def)

lemma process_tolstring: "lua_tolstring i s = (r, n, s') \<Longrightarrow> process s' = process s"
  by (cases "value_at (index2adr i s) s") (auto simp: lua_tolstring_def)

lemma stack_tolstring: "lua_tolstring 1 s = (r, n, s') \<Longrightarrow>
   length (stack s') = length (stack s) \<and> closures s' = closures s \<and> lua_type 2 s' = lua_type 2 s
   \<and> (lua_type 2 s = LUA_TFUNCTION \<longrightarrow> value_at (index2adr 2 s') s' = value_at (index2adr 2 s) s)"
  by (cases "value_at (index2adr 1 s) s")
     (auto simp: lua_tolstring_def index2adr_def lua_type_def split: if_splits)

lemma push_generator:
  "stack (case ty of LUA_TFUNCTION \<Rightarrow> lua_pushvalue 2 s
          | LUA_TTABLE \<Rightarrow> lua_pushcclosure F_lua_ipairsiterator 1 (lua_pushvalue 2 s)
          | _ \<Rightarrow> lua_pushcfunction F_lua_niliterator s)
   = stack s @ [if ty = LUA_TFUNCTION then value_at (index2adr 2 s) s
                else LFunction (CClosure (length (closures s)))]"
  by (cases ty) (simp_all add: lua_pushvalue_def lua_pushcclosure_def lua_pushcfunction_def push_def)

lemma process_generator:
  "process (case ty of LUA_TFUNCTION \<Rightarrow> lua_pushvalue 2 s
          | LUA_TTABLE \<Rightarrow> lua_pushcclosure F_lua_ipairsiterator 1 (lua_pushvalue 2 s)
          | _ \<Rightarrow> lua_pushcfunction F_lua_niliterator s)
   = process s"
  by (cases ty) simp_all

lemma settable_pushed:
  "stack s = st @ [k, v] \<Longrightarrow>
   process (lua_settable_registry s) = process (s\<lparr>registry := (registry s)(k := v)\<rparr>)"
  by (simp add: lua_settable_registry_def process_def butlast_append)


lemma pushed_function_value:
  assumes "lua_type 2 s = LUA_TFUNCTION"
  shows "value_at (index2adr 2 (lua_pushlightuserdata k s)) (lua_pushlightuserdata k s)
         = value_at (index2adr 2 s) s"
proof -
  from assms have "2 \<le> length (stack s)"
    by (auto simp: lua_type_def index2adr_def split: if_splits)
  then show ?thesis
    by (simp add: index2adr_def lua_pushlightuserdata_def push_def nth_append)
qed

lemma closures_pushlightuserdata: "closures (lua_pushlightuserdata k s) = closures s"
  by (simp add: lua_pushlightuserdata_def push_def)

lemma setup_process:
  assumes "lua_readline_setup s = (prompt, old_sigint, s1)"
  shows "old_sigint = sigint s"
    and "process s1 = process (s\<lparr>registry := (registry s)(LLightUserdata REGISTRY_KEY_GENERATOR := generator_for s),
                                   rl_completion_entry_function := F_gen_function,
                                   sigint := Handler F_readline_sigint\<rparr>)"
proof -
  obtain pr len st where tl: "lua_tolstring 1 s = (pr, len, st)"
    by (cases "lua_tolstring 1 s") auto
  let ?s2 = "lua_pushlightuserdata REGISTRY_KEY_GENERATOR st"
  let ?s3 = "case lua_type 2 st of LUA_TFUNCTION \<Rightarrow> lua_pushvalue 2 ?s2
          | LUA_TTABLE \<Rightarrow> lua_pushcclosure F_lua_ipairsiterator 1 (lua_pushvalue 2 ?s2)
          | _ \<Rightarrow> lua_pushcfunction F_lua_niliterator ?s2"
  let ?g = "if lua_type 2 st = LUA_TFUNCTION then value_at (index2adr 2 ?s2) ?s2
                else LFunction (CClosure (length (closures ?s2)))"
  from assms tl
  have s1: "s1 = (lua_settable_registry ?s3)\<lparr>rl_completion_entry_function := F_gen_function,
                                              sigint := Handler F_readline_sigint\<rparr>"
    and old: "old_sigint = sigint (lua_settable_registry ?s3)"
    by (simp_all add: lua_readline_setup_def Let_def signal_def)
  have st3: "stack ?s3 = stack st @ [LLightUserdata REGISTRY_KEY_GENERATOR, ?g]"
    by (simp add: push_generator) (simp add: lua_pushlightuserdata_def push_def)
  have p3: "process ?s3 = process s"
    using process_tolstring [OF tl] by (simp add: process_generator)
  from stack_tolstring [OF tl] have g: "?g = generator_for s"
    by (auto simp: generator_for_def pushed_function_value closures_pushlightuserdata)
  from settable_pushed [OF st3] p3 g
  have p4: "process (lua_settable_registry ?s3)
            = process (s\<lparr>registry := (registry s)(LLightUserdata REGISTRY_KEY_GENERATOR := generator_for s)\<rparr>)"
    by (simp add: process_def)
  from old p4 show "old_sigint = sigint s" by (simp add: process_def)
  from s1 p4 show "process s1 = process (s\<lparr>registry := (registry s)(LLightUserdata REGISTRY_KEY_GENERATOR := generator_for s),
                                   rl_completion_entry_function := F_gen_function,
                                   sigint := Handler F_readline_sigint\<rparr>)"
    by (simp add: process_def)
qed

lemma setup_facts:
  assumes "lua_readline_setup s = (prompt, old_sigint, s1)"
  shows "old_sigint = sigint s" and "sigint s1 = Handler F_readline_sigint"
    and "rl_completion_entry_function s1 = F_gen_function"
    and "trace s1 = trace s" and "host s1 = host s"
    and "signal_handlers s1 = signal_handlers s" and "lua_functions s1 = lua_functions s"
    and "globals s1 = globals s" and "out_of_memory s1 = out_of_memory s"
    and "registry s1 (LLightUserdata REGISTRY_KEY_GENERATOR) = generator_for s"
  using setup_process [OF assms] by (simp_all add: process_def)

subsection \<open>The blocking read\<close>

lemma read_result_kept: "kept s1 = kept s \<Longrightarrow> read_result line s1 r \<Longrightarrow> read_result line s r"
  by (cases "(line, s1, r)" rule: read_result.cases) auto

lemma readline_result:
  assumes "rl_completion_entry_function s = F_gen_function"
    and "sigint s = Handler F_readline_sigint"
    and "readline prompt events line s = Some r"
  shows "read_result line s r"
  using assms
proof (induction events arbitrary: s)
  case Nil
  then show ?case by auto
next
  case (Cons ev events)
  show ?case
  proof (cases ev)
    fix wd st assume ev: "ev = Completion wd st"
    with Cons.prems have run: "and_then (gen_function wd st s) (\<lambda>p s. readline prompt events line s) = Some r"
      by simp
    from and_then_Some [OF run] show ?thesis
    proof (elim disjE exE conjE)
      fix p s1 assume a: "gen_function wd st s = Some (Ok p s1)" "readline prompt events line s1 = Some r"
      from gen_function_kept [OF a(1)] have k: "kept s1 = kept s" by simp
      with Cons.prems have "rl_completion_entry_function s1 = F_gen_function" "sigint s1 = Handler F_readline_sigint"
        by (simp_all add: kept_def)
      from Cons.IH [OF this a(2)] k show ?thesis by (rule read_result_kept [rotated])
    next
      fix x s1 assume a: "gen_function wd st s = Some (Abrupt x s1)" "r = Abrupt x s1"
      from gen_function_kept [OF a(1)] a(2) show ?thesis by (cases x) auto
    next
      fix f assume "r = Fault f"
      then show ?thesis by simp
    qed
  next
    assume "ev = Interrupt"
    with Cons.prems show ?thesis
      by (auto simp: deliver_SIGINT_def readline_sigint_def)
  qed
qed

lemma setup_kept:
  assumes "lua_readline_setup s = (prompt, old_sigint, s1)"
  shows "kept s1 = kept (s\<lparr>registry := (registry s)(LLightUserdata REGISTRY_KEY_GENERATOR := generator_for s),
                                   rl_completion_entry_function := F_gen_function,
                                   sigint := Handler F_readline_sigint\<rparr>)"
  using setup_process [OF assms] by (simp add: process_def kept_def)




lemma lua_readline_unfold:
  assumes "lua_readline_setup s = (prompt, old_sigint, s1)"
  shows "lua_readline events line at_eof s =
          (case readline prompt events line s1 of
             None \<Rightarrow> None
           | Some (Abrupt (Siglongjmp v) s2) \<Rightarrow>
               lua_readline_interrupted old_sigint (sigsetjmp_value v) s2
           | Some (Abrupt x s2) \<Rightarrow> Some (Abrupt x s2)
           | Some (Fault f) \<Rightarrow> Some (Fault f)
           | Some (Ok ln s2) \<Rightarrow>
               (case signal old_sigint s2 of
                  (replaced, s3) \<Rightarrow>
                    if ln = None \<and> at_eof then Some (Ok 0 s3)
                    else Some (Ok 1 (lua_pushstring ln s3))))"
  using assms by (simp add: lua_readline_def)

lemma example_setup_absent:
  "lua_readline_setup (example_call [LString ''> ''] d)
   = (Some ''> '', d, example_reading [LString ''> ''] (LFunction (CClosure 0)) [(F_lua_niliterator, [])])"
  by (simp add: lua_readline_setup_def example_call_def example_reading_def example_world_def
      lua_tolstring_def index2adr_def lua_type_def lua_pushlightuserdata_def push_def
      lua_pushcfunction_def lua_pushcclosure_def lua_settable_registry_def signal_def Let_def)

lemma example_setup_function:
  "lua_readline_setup (example_call [LString ''> '', LFunction (LuaFunction i)] d)
   = (Some ''> '', d, example_reading [LString ''> '', LFunction (LuaFunction i)] (LFunction (LuaFunction i)) [])"
  by (simp add: lua_readline_setup_def example_call_def example_reading_def example_world_def
      lua_tolstring_def index2adr_def lua_type_def lua_pushlightuserdata_def push_def
      lua_pushvalue_def lua_settable_registry_def signal_def Let_def)

subsection \<open>Interruption\<close>




subsection \<open>An error raised by the completion callable\<close>

text \<open>
  Claim C2 says that the disposition of \<^verbatim>\<open>SIGINT\<close> is restored on every exit path, also
  when the completion callable raises an error during the read. The two returning paths
  of \<^verbatim>\<open>lua_readline\<close> do restore it ("Restore signals on return", "Restore the old signal
  handler"), but a Lua error leaves \<^verbatim>\<open>readline\<close> and \<^verbatim>\<open>lua_readline\<close> by \<^verbatim>\<open>longjmp\<close>
  and skips both: whenever the read ends in a Lua error, \<^verbatim>\<open>lua_readline\<close> ends in that
  error with \<^verbatim>\<open>readline_sigint\<close> still installed.
\<close>

theorem error_leaves_handler:
  assumes su: "lua_readline_setup s = (prompt, old_sigint, s1)"
    and err: "readline prompt events line s1 = Some (Abrupt (Lua_error e) s2)"
  shows "lua_readline events line at_eof s = Some (Abrupt (Lua_error e) s2)
         \<and> sigint s2 = Handler F_readline_sigint"
proof -
  note f = setup_facts [OF su]
  from readline_result [OF f(3) f(2) err] have "kept s2 = kept s1" by simp
  with f(2) have "sigint s2 = Handler F_readline_sigint" by (simp add: kept_def)
  with err show ?thesis by (simp add: lua_readline_unfold [OF su])
qed

text \<open>
  In the example host, the disposition is \<^verbatim>\<open>SIG_DFL\<close> before the call; the completion
  callable (function 2) raises \<open>boom\<close> at the first completion request; the call ends in
  that error and the disposition is \<^verbatim>\<open>readline_sigint\<close>.
\<close>

theorem error_leaves_handler_witness:
  "lua_readline_setup (example_call [LString ''> '', LFunction (LuaFunction 2)] SIG_DFL)
     = (Some ''> '', SIG_DFL,
        example_reading [LString ''> '', LFunction (LuaFunction 2)] (LFunction (LuaFunction 2)) [])
   \<and> readline (Some ''> '') [Completion ''a'' 0] (Some ''apple'')
         (example_reading [LString ''> '', LFunction (LuaFunction 2)] (LFunction (LuaFunction 2)) [])
       = Some (Abrupt (Lua_error (LString ''boom''))
               ((example_reading [LString ''> '', LFunction (LuaFunction 2), LFunction (LuaFunction 2), LString ''a'']
                   (LFunction (LuaFunction 2)) [])
                 \<lparr>trace := [Lua_function_called 2 [LString ''a'']]\<rparr>))
   \<and> sigint (example_call [LString ''> '', LFunction (LuaFunction 2)] SIG_DFL) = SIG_DFL
   \<and> lua_readline [Completion ''a'' 0] (Some ''apple'') False
         (example_call [LString ''> '', LFunction (LuaFunction 2)] SIG_DFL)
       = Some (Abrupt (Lua_error (LString ''boom''))
               ((example_reading [LString ''> '', LFunction (LuaFunction 2), LFunction (LuaFunction 2), LString ''a'']
                   (LFunction (LuaFunction 2)) [])
                 \<lparr>trace := [Lua_function_called 2 [LString ''a'']]\<rparr>))
   \<and> sigint ((example_reading [LString ''> '', LFunction (LuaFunction 2), LFunction (LuaFunction 2), LString ''a'']
                   (LFunction (LuaFunction 2)) [])
                 \<lparr>trace := [Lua_function_called 2 [LString ''a'']]\<rparr>) = Handler F_readline_sigint"
proof -
  have r: "readline (Some ''> '') [Completion ''a'' 0] (Some ''apple'')
         (example_reading [LString ''> '', LFunction (LuaFunction 2)] (LFunction (LuaFunction 2)) [])
       = Some (Abrupt (Lua_error (LString ''boom''))
               ((example_reading [LString ''> '', LFunction (LuaFunction 2), LFunction (LuaFunction 2), LString ''a'']
                   (LFunction (LuaFunction 2)) [])
                 \<lparr>trace := [Lua_function_called 2 [LString ''a'']]\<rparr>))"
    by (simp add: example_reading_def example_world_def gen_function_def lua_initgenerator_def
        lua_pushlightuserdata_def push_def lua_gettable_registry_def lua_pushstring_def
        lua_call_def luaD_call_def c_str_def NUL_def example_functions_def)
  from error_leaves_handler [OF example_setup_function r, of False] example_setup_function r
  show ?thesis
    by (simp add: example_call_def)
qed

subsection \<open>The null result of the blocking read\<close>

text \<open>
  Claim C5. The blocking read returns the null pointer. If the input stream is at
  end-of-file, \<^verbatim>\<open>lua_readline\<close> returns no value; if it is not, \<^verbatim>\<open>lua_readline\<close> returns
  one value, the nil that \<^verbatim>\<open>lua_pushstring\<close> pushes for a null pointer. In both cases the
  host that takes one result finds nil, and the old disposition is back.
\<close>

theorem null_read:
  assumes su: "lua_readline_setup s = (prompt, old_sigint, s1)"
    and ret: "readline prompt events None s1 = Some (Ok ln s2)"
  shows "lua_readline events None True s = Some (Ok 0 (s2\<lparr>sigint := old_sigint\<rparr>))
     \<and> returned_values 0 (s2\<lparr>sigint := old_sigint\<rparr>) = []
     \<and> lua_readline events None False s = Some (Ok 1 (lua_pushstring None (s2\<lparr>sigint := old_sigint\<rparr>)))
     \<and> returned_values 1 (lua_pushstring None (s2\<lparr>sigint := old_sigint\<rparr>)) = [LNil]
     \<and> first_value [] = LNil \<and> first_value [LNil] = LNil"
proof -
  note f = setup_facts [OF su]
  from readline_result [OF f(3) f(2) ret] have "ln = None" by simp
  with ret show ?thesis
    by (simp add: lua_readline_unfold [OF su] signal_def returned_values_def
        lua_pushstring_def push_def first_value_def)
qed

text \<open>The example host, with no event during the read.\<close>

theorem null_read_witness:
  "lua_readline_setup (example_call [LString ''> ''] SIG_DFL)
     = (Some ''> '', SIG_DFL,
        example_reading [LString ''> ''] (LFunction (CClosure 0)) [(F_lua_niliterator, [])])
   \<and> readline (Some ''> '') [] None
         (example_reading [LString ''> ''] (LFunction (CClosure 0)) [(F_lua_niliterator, [])])
       = Some (Ok None (example_reading [LString ''> ''] (LFunction (CClosure 0)) [(F_lua_niliterator, [])]))
   \<and> lua_readline [] None True (example_call [LString ''> ''] SIG_DFL)
       = Some (Ok 0 ((example_reading [LString ''> ''] (LFunction (CClosure 0)) [(F_lua_niliterator, [])])
                     \<lparr>sigint := SIG_DFL\<rparr>))
   \<and> lua_readline [] None False (example_call [LString ''> ''] SIG_DFL)
       = Some (Ok 1 (lua_pushstring None
                     ((example_reading [LString ''> ''] (LFunction (CClosure 0)) [(F_lua_niliterator, [])])
                       \<lparr>sigint := SIG_DFL\<rparr>)))"
proof -
  have r: "readline (Some ''> '') [] None
         (example_reading [LString ''> ''] (LFunction (CClosure 0)) [(F_lua_niliterator, [])])
       = Some (Ok None (example_reading [LString ''> ''] (LFunction (CClosure 0)) [(F_lua_niliterator, [])]))"
    by simp
  from null_read [OF example_setup_absent r] example_setup_absent r
  show ?thesis by simp
qed

subsection \<open>The registry after the read\<close>

lemma call_handler_Ok:
  "call_handler h sig s = Ok u s' \<Longrightarrow>
     registry s' = registry s \<and> rl_completion_entry_function s' = rl_completion_entry_function s"
  by (cases h) (auto simp: readline_sigint_def split: option.splits)

lemma interrupted_registry:
  assumes "lua_readline_interrupted old_sigint sig s = Some r"
  shows "case r of Ok n s' \<Rightarrow> registry s' = registry s
                     \<and> rl_completion_entry_function s' = rl_completion_entry_function s
         | _ \<Rightarrow> True"
proof (rule lua_readline_interrupted.raw_induct
    [where P = "\<lambda>old_sigint sig s r. case r of Ok n s' \<Rightarrow> registry s' = registry s
                     \<and> rl_completion_entry_function s' = rl_completion_entry_function s
         | _ \<Rightarrow> True", OF _ assms], goal_cases)
  case (1 rec old sg t q)
  let ?t1 = "t\<lparr>trace := trace t @ [Rl_free_line_state, Rl_cleanup_after_signal], sigint := old\<rparr>"
  show ?case
  proof (cases old)
    case (Handler h)
    show ?thesis
    proof (cases "call_handler h sg ?t1")
      case (Ok u t2)
      from call_handler_Ok [OF Ok] 1(2) Handler Ok show ?thesis
        by (auto simp: signal_def rl_cleanup_after_signal_def rl_free_line_state_def)
    next
      case (Abrupt x t2)
      show ?thesis
      proof (cases x)
        case (Siglongjmp v)
        with Abrupt Handler have t2: "t2 = ?t1" by (cases h) (auto simp: readline_sigint_def split: option.splits)
        from 1(2) Handler Abrupt Siglongjmp
        have "rec old (sigsetjmp_value v) t2 = Some q"
          by (simp add: signal_def rl_cleanup_after_signal_def rl_free_line_state_def)
        from 1(1) [OF this] t2 show ?thesis by (cases q) auto
      qed (use 1(2) Handler Abrupt in \<open>auto simp: signal_def rl_cleanup_after_signal_def rl_free_line_state_def\<close>)
    next
      case (Fault f)
      with 1(2) Handler show ?thesis
        by (auto simp: signal_def rl_cleanup_after_signal_def rl_free_line_state_def)
    qed
  qed (use 1(2) in \<open>auto simp: signal_def rl_cleanup_after_signal_def rl_free_line_state_def\<close>)
qed

text \<open>
  Claim C7, as stated: no completion-source state installed by a \<^verbatim>\<open>read_line\<close> call remains
  after the call returns. Nothing in \<^verbatim>\<open>lua_readline\<close> clears the registry: after a read
  with the callable 0 as completion source has returned a line, the generator slot still
  holds the callable, and the entry function of the library is still \<^verbatim>\<open>gen_function\<close>.
\<close>

theorem generator_stays_counterexample:
  "(case lua_readline [] (Some ''apple'') False
            (example_call [LString ''> '', LFunction (LuaFunction 0)] SIG_DFL) of
      Some (Ok n s') \<Rightarrow>
        registry s' (LLightUserdata REGISTRY_KEY_GENERATOR) = LFunction (LuaFunction 0)
        \<and> registry s' (LLightUserdata REGISTRY_KEY_GENERATOR) \<noteq> LNil
        \<and> rl_completion_entry_function s' = F_gen_function
    | _ \<Rightarrow> False)"
  by (simp add: lua_readline_unfold [OF example_setup_function] example_reading_def signal_def
      lua_pushstring_def push_def)

text \<open>
  Claim C7, amended. Every call of \<^verbatim>\<open>lua_readline\<close> stores a generator built from its own
  second argument in the generator slot of the registry, whatever the slot held before;
  when the call returns, after a line, at end of input or after an interruption, the
  slot still holds that generator (a function value), and \<^verbatim>\<open>rl_completion_entry_function\<close>
  is still \<^verbatim>\<open>gen_function\<close>.
\<close>

theorem generator_stays:
  assumes su: "lua_readline_setup s = (prompt, old_sigint, s1)"
    and ret: "lua_readline events line at_eof s = Some (Ok n s')"
  shows "registry s' (LLightUserdata REGISTRY_KEY_GENERATOR) = generator_for s
     \<and> ttype (generator_for s) = LUA_TFUNCTION
     \<and> rl_completion_entry_function s' = F_gen_function"
proof -
  note f = setup_facts [OF su]
  have ty: "ttype (generator_for s) = LUA_TFUNCTION"
    by (auto simp: generator_for_def lua_type_def split: slot.splits)
  have "registry s' (LLightUserdata REGISTRY_KEY_GENERATOR) = generator_for s
     \<and> rl_completion_entry_function s' = F_gen_function"
  proof (cases "readline prompt events line s1")
    case None
    with ret show ?thesis by (simp add: lua_readline_unfold [OF su])
  next
    case (Some r)
    from readline_result [OF f(3) f(2) Some] have rr: "read_result line s1 r" .
    show ?thesis
    proof (cases r)
      case (Ok ln s2)
      with rr have "kept s2 = kept s1" by simp
      with f have "registry s2 (LLightUserdata REGISTRY_KEY_GENERATOR) = generator_for s"
        "rl_completion_entry_function s2 = F_gen_function" by (simp_all add: kept_def)
      with ret Some Ok show ?thesis
        by (auto simp: lua_readline_unfold [OF su] signal_def lua_pushstring_def push_def
            split: if_splits)
    next
      case (Abrupt x s2)
      show ?thesis
      proof (cases x)
        case (Siglongjmp v)
        with rr Abrupt have "kept s2 = kept s1" by simp
        with f have g: "registry s2 (LLightUserdata REGISTRY_KEY_GENERATOR) = generator_for s"
          "rl_completion_entry_function s2 = F_gen_function" by (simp_all add: kept_def)
        from ret Some Abrupt Siglongjmp
        have "lua_readline_interrupted old_sigint (sigsetjmp_value v) s2 = Some (Ok n s')"
          by (simp add: lua_readline_unfold [OF su])
        from interrupted_registry [OF this] g show ?thesis by simp
      qed (use ret Some Abrupt in \<open>simp_all add: lua_readline_unfold [OF su]\<close>)
    next
      case (Fault f)
      with ret Some show ?thesis by (simp add: lua_readline_unfold [OF su])
    qed
  qed
  with ty show ?thesis by simp
qed


text \<open>The example host reads a line with the callable 0 as completion source.\<close>

theorem generator_stays_witness:
  "lua_readline_setup (example_call [LString ''> '', LFunction (LuaFunction 0)] SIG_DFL)
     = (Some ''> '', SIG_DFL,
        example_reading [LString ''> '', LFunction (LuaFunction 0)] (LFunction (LuaFunction 0)) [])
   \<and> lua_readline [] (Some ''apple'') False (example_call [LString ''> '', LFunction (LuaFunction 0)] SIG_DFL)
       = Some (Ok 1 (lua_pushstring (Some ''apple'')
                     ((example_reading [LString ''> '', LFunction (LuaFunction 0)] (LFunction (LuaFunction 0)) [])
                       \<lparr>sigint := SIG_DFL\<rparr>)))
   \<and> registry (lua_pushstring (Some ''apple'')
                     ((example_reading [LString ''> '', LFunction (LuaFunction 0)] (LFunction (LuaFunction 0)) [])
                       \<lparr>sigint := SIG_DFL\<rparr>)) (LLightUserdata REGISTRY_KEY_GENERATOR)
       = generator_for (example_call [LString ''> '', LFunction (LuaFunction 0)] SIG_DFL)"
proof -
  have r: "lua_readline [] (Some ''apple'') False (example_call [LString ''> '', LFunction (LuaFunction 0)] SIG_DFL)
       = Some (Ok 1 (lua_pushstring (Some ''apple'')
                     ((example_reading [LString ''> '', LFunction (LuaFunction 0)] (LFunction (LuaFunction 0)) [])
                       \<lparr>sigint := SIG_DFL\<rparr>)))"
    by (simp add: lua_readline_unfold [OF example_setup_function] signal_def)
  from generator_stays [OF example_setup_function r] example_setup_function r
  show ?thesis by simp
qed

section \<open>Generations\<close>

subsection \<open>No completion source\<close>

lemma luaD_call_function:
  assumes "stack s = below @ LFunction fn # args" and "length args = na"
  shows "luaD_call run na nr s = precall run fn args below nr s"
  using assms by (simp add: luaD_call_def nth_append)

lemma fetch_generator:
  "stack (lua_pushstring (Some text) (lua_gettable_registry (lua_pushlightuserdata k s)))
     = stack s @ [registry s (LLightUserdata k), LString (c_str text)]"
  by (simp add: lua_pushstring_def lua_gettable_registry_def lua_pushlightuserdata_def push_def)

lemma fetch_iterator:
  "stack (lua_gettable_registry (lua_pushlightuserdata k s)) = stack s @ [registry s (LLightUserdata k)]"
  by (simp add: lua_gettable_registry_def lua_pushlightuserdata_def push_def)

lemma fetch_other:
  "lua_pushstring (Some text) (lua_gettable_registry (lua_pushlightuserdata k s))
     = s\<lparr>stack := stack s @ [registry s (LLightUserdata k), LString (c_str text)]\<rparr>"
  "lua_gettable_registry (lua_pushlightuserdata k s)
     = s\<lparr>stack := stack s @ [registry s (LLightUserdata k)]\<rparr>"
  by (simp_all add: lua_pushstring_def lua_gettable_registry_def lua_pushlightuserdata_def push_def)

lemma initgenerator_empty:
  assumes "empty_generator_installed s"
  shows "lua_initgenerator text s =
     Some (Ok () (s\<lparr>closures := closures s @ [(F_lua_returnnil, [])],
                    registry := (registry s)(LLightUserdata REGISTRY_KEY_ITERATOR :=
                                   LFunction (CClosure (length (closures s))))\<rparr>))"
proof -
  from assms obtain c where g: "registry s (LLightUserdata REGISTRY_KEY_GENERATOR) = LFunction (CClosure c)"
    and c: "c < length (closures s)" "fst (closures s ! c) = F_lua_niliterator"
    by (auto simp: empty_generator_installed_def split: lua_value.splits lua_function.splits)
  let ?s0 = "s\<lparr>stack := stack s @ [LFunction (CClosure c), LString (c_str text)]\<rparr>"
  have call: "lua_call 1 1 ?s0
     = Some (Ok () (s\<lparr>stack := stack s @ [LFunction (CClosure (length (closures s)))],
                      closures := closures s @ [(F_lua_returnnil, [])]\<rparr>))"
    unfolding lua_call_def
    using c
    by (subst luaD_call_function [where below = "stack s" and fn = "CClosure c" and args = "[LString (c_str text)]"])
       (simp_all add: not_le lua_niliterator_def lua_pushcfunction_def lua_pushcclosure_def
          adjust_results_def)
  have pre: "lua_pushstring (Some text) (lua_gettable_registry (lua_pushlightuserdata REGISTRY_KEY_GENERATOR s)) = ?s0"
    by (simp add: fetch_other(1) g)
  show ?thesis
    unfolding lua_initgenerator_def pre call
    by (simp add: store_iterator [where below = "stack s"])
qed


lemma stepgenerator_returnnil:
  assumes "registry s (LLightUserdata REGISTRY_KEY_ITERATOR) = LFunction (CClosure a)"
    and "a < length (closures s)" and "fst (closures s ! a) = F_lua_returnnil"
  shows "lua_stepgenerator s = Some (Ok NULL s)"
proof -
  let ?s0 = "s\<lparr>stack := stack s @ [LFunction (CClosure a)]\<rparr>"
  have pre: "lua_gettable_registry (lua_pushlightuserdata REGISTRY_KEY_ITERATOR s) = ?s0"
    by (simp add: fetch_other(2) assms(1))
  have call: "lua_call 0 1 ?s0 = Some (Ok () (s\<lparr>stack := stack s @ [LNil]\<rparr>))"
    unfolding lua_call_def
    using assms(2,3)
    by (subst luaD_call_function [where below = "stack s" and fn = "CClosure a" and args = "[]"])
       (simp_all add: not_le lua_returnnil_def adjust_results_def)
  show ?thesis
    unfolding lua_stepgenerator_def pre call
    by (simp add: lua_isnil_def lua_type_def index2adr_def LUA_REGISTRYINDEX_def lua_pop_def)
qed

lemma gen_function_empty:
  assumes "empty_generator_installed s"
  shows "gen_function text 0 s =
     Some (Ok NULL (s\<lparr>closures := closures s @ [(F_lua_returnnil, [])],
                    registry := (registry s)(LLightUserdata REGISTRY_KEY_ITERATOR :=
                                   LFunction (CClosure (length (closures s))))\<rparr>))"
  unfolding gen_function_def
  by (simp add: initgenerator_empty [OF assms] stepgenerator_returnnil nth_append)

lemma empty_generation:
  assumes "empty_generator_installed s"
  shows "\<exists>s'. rl_completion_matches text s = Some (Ok [] s')
            \<and> gen_function text 0 s = Some (Ok NULL s')
            \<and> trace s' = trace s \<and> host s' = host s \<and> empty_generator_installed s'"
proof -
  let ?s' = "s\<lparr>closures := closures s @ [(F_lua_returnnil, [])],
                    registry := (registry s)(LLightUserdata REGISTRY_KEY_ITERATOR :=
                                   LFunction (CClosure (length (closures s))))\<rparr>"
  have g: "gen_function text 0 s = Some (Ok NULL ?s')" by (rule gen_function_empty [OF assms])
  then have m: "rl_completion_matches text s = Some (Ok [] ?s')"
    unfolding rl_completion_matches_def
    by (subst rl_completion_matches_from.simps) simp
  have e: "empty_generator_installed ?s'"
    using assms
    by (auto simp: empty_generator_installed_def REGISTRY_KEY_GENERATOR_def REGISTRY_KEY_ITERATOR_def
        nth_append split: lua_value.splits lua_function.splits)
  from g m e show ?thesis by auto
qed


lemma tolstring1_index2:
  "lua_tolstring 1 s = (r, n, s') \<Longrightarrow> value_at (index2adr 2 s') s' = value_at (index2adr 2 s) s"
  by (cases "value_at (index2adr 1 s) s")
     (auto simp: lua_tolstring_def index2adr_def split: if_splits)

lemma pushed_value2:
  "value_at (index2adr 2 (lua_pushlightuserdata k s)) (lua_pushlightuserdata k s)
     = (if length (stack s) = 1 then LLightUserdata k else value_at (index2adr 2 s) s)"
  by (auto simp: index2adr_def lua_pushlightuserdata_def push_def nth_append)

lemma type2_length: "lua_type 2 s \<noteq> LUA_TNONE \<Longrightarrow> 2 \<le> length (stack s)"
  by (auto simp: lua_type_def index2adr_def split: if_splits)

lemma closures_generator:
  "closures (case ty of LUA_TFUNCTION \<Rightarrow> lua_pushvalue 2 s
          | LUA_TTABLE \<Rightarrow> lua_pushcclosure F_lua_ipairsiterator 1 (lua_pushvalue 2 s)
          | _ \<Rightarrow> lua_pushcfunction F_lua_niliterator s)
   = (case ty of LUA_TFUNCTION \<Rightarrow> closures s
      | LUA_TTABLE \<Rightarrow> closures s @ [(F_lua_ipairsiterator, [value_at (index2adr 2 s) s])]
      | _ \<Rightarrow> closures s @ [(F_lua_niliterator, [])])"
  by (cases ty) (simp_all add: lua_pushvalue_def lua_pushcclosure_def lua_pushcfunction_def push_def)

lemma setup_closures:
  assumes "lua_readline_setup s = (prompt, old_sigint, s1)"
  shows "closures s1 =
     (case lua_type 2 s of LUA_TFUNCTION \<Rightarrow> closures s
      | LUA_TTABLE \<Rightarrow> closures s @ [(F_lua_ipairsiterator, [value_at (index2adr 2 s) s])]
      | _ \<Rightarrow> closures s @ [(F_lua_niliterator, [])])"
proof -
  obtain pr len st where tl: "lua_tolstring 1 s = (pr, len, st)"
    by (cases "lua_tolstring 1 s") auto
  let ?s2 = "lua_pushlightuserdata REGISTRY_KEY_GENERATOR st"
  let ?s3 = "case lua_type 2 st of LUA_TFUNCTION \<Rightarrow> lua_pushvalue 2 ?s2
          | LUA_TTABLE \<Rightarrow> lua_pushcclosure F_lua_ipairsiterator 1 (lua_pushvalue 2 ?s2)
          | _ \<Rightarrow> lua_pushcfunction F_lua_niliterator ?s2"
  from assms tl
  have s1: "closures s1 = closures ?s3"
    by (auto simp: lua_readline_setup_def Let_def signal_def lua_settable_registry_def)
  note st = stack_tolstring [OF tl]
  have v: "lua_type 2 s = LUA_TTABLE \<Longrightarrow> value_at (index2adr 2 ?s2) ?s2 = value_at (index2adr 2 s) s"
  proof -
    assume "lua_type 2 s = LUA_TTABLE"
    then have "2 \<le> length (stack s)" by (intro type2_length) simp
    with st have "length (stack st) \<noteq> 1" by simp
    then show ?thesis by (simp add: pushed_value2 tolstring1_index2 [OF tl])
  qed
  show ?thesis
    unfolding s1 closures_generator
    using st v by (cases "lua_type 2 s") (simp_all add: closures_pushlightuserdata)
qed

lemma setup_empty:
  assumes "lua_type 2 s \<noteq> LUA_TFUNCTION" and "lua_type 2 s \<noteq> LUA_TTABLE"
    and su: "lua_readline_setup s = (prompt, old_sigint, s1)"
  shows "registry s1 (LLightUserdata REGISTRY_KEY_GENERATOR) = LFunction (CClosure (length (closures s)))"
    and "closures s1 = closures s @ [(F_lua_niliterator, [])]"
    and "empty_generator_installed s1"
proof -
  from setup_facts(10) [OF su] assms(1)
  show g: "registry s1 (LLightUserdata REGISTRY_KEY_GENERATOR) = LFunction (CClosure (length (closures s)))"
    by (simp add: generator_for_def)
  from setup_closures [OF su] assms(1,2)
  show c: "closures s1 = closures s @ [(F_lua_niliterator, [])]"
    by (cases "lua_type 2 s") simp_all
  from g c show "empty_generator_installed s1"
    by (simp add: empty_generator_installed_def)
qed

lemma example_empty_installed:
  "empty_generator_installed (example_reading args (LFunction (CClosure 0)) [(F_lua_niliterator, [])])"
  by (simp add: empty_generator_installed_def example_reading_def)

lemma example_setup_other:
  "ttype v \<noteq> LUA_TFUNCTION \<Longrightarrow> ttype v \<noteq> LUA_TTABLE \<Longrightarrow>
   lua_readline_setup (example_call [LString ''> '', v] d)
   = (Some ''> '', d, example_reading [LString ''> '', v] (LFunction (CClosure 0)) [(F_lua_niliterator, [])])"
  by (cases v)
     (simp_all add: lua_readline_setup_def example_call_def example_reading_def example_world_def
      lua_tolstring_def index2adr_def lua_type_def lua_pushlightuserdata_def push_def
      lua_pushcfunction_def lua_pushcclosure_def lua_settable_registry_def signal_def Let_def)

text \<open>
  Claim C6. An absent completion source (argument 2 is nil or missing) makes
  \<^verbatim>\<open>lua_readline\<close> install the empty generator. Every generation begun while the empty
  generator is installed ends at once: the first call of the entry function returns the
  null pointer, the generation has no candidate, no function of the host is called (the
  trace and the host's state are as before), and the empty generator is still installed
  for the next generation.
\<close>

theorem absent_generation:
  assumes "lua_type 2 s0 = LUA_TNIL \<or> lua_type 2 s0 = LUA_TNONE"
    and "lua_readline_setup s0 = (prompt, old_sigint, s1)"
    and "empty_generator_installed s"
  shows "empty_generator_installed s1
     \<and> (\<exists>s'. gen_function text 0 s = Some (Ok NULL s')
            \<and> rl_completion_matches text s = Some (Ok [] s')
            \<and> trace s' = trace s \<and> host s' = host s \<and> empty_generator_installed s')"
proof -
  from assms(1) have "lua_type 2 s0 \<noteq> LUA_TFUNCTION" "lua_type 2 s0 \<noteq> LUA_TTABLE" by auto
  from setup_empty(3) [OF this assms(2)] empty_generation [OF assms(3), of "text"]
  show ?thesis by blast
qed

text \<open>The example host calls \<^verbatim>\<open>readline("> ", nil)\<close>.\<close>

theorem absent_generation_witness:
  "(lua_type 2 (example_call [LString ''> '', LNil] SIG_DFL) = LUA_TNIL
      \<or> lua_type 2 (example_call [LString ''> '', LNil] SIG_DFL) = LUA_TNONE)
   \<and> lua_readline_setup (example_call [LString ''> '', LNil] SIG_DFL)
       = (Some ''> '', SIG_DFL,
          example_reading [LString ''> '', LNil] (LFunction (CClosure 0)) [(F_lua_niliterator, [])])
   \<and> empty_generator_installed
        (example_reading [LString ''> '', LNil] (LFunction (CClosure 0)) [(F_lua_niliterator, [])])
   \<and> (\<exists>s'. gen_function ''a'' 0
               (example_reading [LString ''> '', LNil] (LFunction (CClosure 0)) [(F_lua_niliterator, [])])
             = Some (Ok NULL s')
          \<and> rl_completion_matches ''a''
               (example_reading [LString ''> '', LNil] (LFunction (CClosure 0)) [(F_lua_niliterator, [])])
             = Some (Ok [] s')
          \<and> trace s' = [])"
proof -
  have ty: "lua_type 2 (example_call [LString ''> '', LNil] SIG_DFL) = LUA_TNIL
      \<or> lua_type 2 (example_call [LString ''> '', LNil] SIG_DFL) = LUA_TNONE"
    by (simp add: lua_type_def index2adr_def example_call_def)
  have su: "lua_readline_setup (example_call [LString ''> '', LNil] SIG_DFL)
       = (Some ''> '', SIG_DFL,
          example_reading [LString ''> '', LNil] (LFunction (CClosure 0)) [(F_lua_niliterator, [])])"
    by (rule example_setup_other) simp_all
  from absent_generation [OF ty su example_empty_installed, of "''a''"] ty su
  show ?thesis
    by (auto simp: example_reading_def example_world_def)
qed

text \<open>
  Claim C10. When argument 2 is neither a function nor a table, \<^verbatim>\<open>lua_readline\<close> stores
  a new closure of \<^verbatim>\<open>lua_niliterator\<close>, which does not depend on the value: the empty
  generator is installed exactly as for an absent source, and a generation has no
  candidate and calls no function of the host.
\<close>

theorem other_source_is_absent:
  assumes "lua_type 2 s \<noteq> LUA_TFUNCTION" and "lua_type 2 s \<noteq> LUA_TTABLE"
    and su: "lua_readline_setup s = (prompt, old_sigint, s1)"
  shows "registry s1 (LLightUserdata REGISTRY_KEY_GENERATOR) = LFunction (CClosure (length (closures s)))
     \<and> closures s1 = closures s @ [(F_lua_niliterator, [])]
     \<and> empty_generator_installed s1
     \<and> (\<exists>s'. rl_completion_matches text s1 = Some (Ok [] s') \<and> trace s' = trace s1
            \<and> empty_generator_installed s')"
proof -
  note e = setup_empty [OF assms]
  from empty_generation [OF e(3), of "text"] e show ?thesis by blast
qed

text \<open>The example host calls \<^verbatim>\<open>readline("> ", 7)\<close>.\<close>

theorem other_source_is_absent_witness:
  "lua_type 2 (example_call [LString ''> '', LNumber 7] SIG_DFL) \<noteq> LUA_TFUNCTION
   \<and> lua_type 2 (example_call [LString ''> '', LNumber 7] SIG_DFL) \<noteq> LUA_TTABLE
   \<and> lua_readline_setup (example_call [LString ''> '', LNumber 7] SIG_DFL)
       = (Some ''> '', SIG_DFL,
          example_reading [LString ''> '', LNumber 7] (LFunction (CClosure 0)) [(F_lua_niliterator, [])])
   \<and> (\<exists>s'. rl_completion_matches ''a''
               (example_reading [LString ''> '', LNumber 7] (LFunction (CClosure 0)) [(F_lua_niliterator, [])])
             = Some (Ok [] s')
          \<and> trace s' = [])"
proof -
  have ty: "lua_type 2 (example_call [LString ''> '', LNumber 7] SIG_DFL) \<noteq> LUA_TFUNCTION"
    "lua_type 2 (example_call [LString ''> '', LNumber 7] SIG_DFL) \<noteq> LUA_TTABLE"
    by (simp_all add: lua_type_def index2adr_def example_call_def)
  have su: "lua_readline_setup (example_call [LString ''> '', LNumber 7] SIG_DFL)
       = (Some ''> '', SIG_DFL,
          example_reading [LString ''> '', LNumber 7] (LFunction (CClosure 0)) [(F_lua_niliterator, [])])"
    by (rule example_setup_other) simp_all
  from other_source_is_absent [OF ty su, of "''a''"] ty su
  show ?thesis
    by (auto simp: example_reading_def example_world_def)
qed

subsection \<open>A callable as completion source\<close>

lemma length_c_str: "length (c_str bs) \<le> length bs"
  by (simp add: c_str_def length_takeWhile_le)

lemma c_str_strncpy: "c_str (strncpy_bytes a (Suc (length a))) = c_str a"
proof -
  let ?k = "length a - length (c_str a)"
  have "strncpy_bytes a (Suc (length a)) = c_str a @ NUL # replicate ?k NUL"
    using length_c_str [of a]
    by (simp add: strncpy_bytes_def Suc_diff_le)
  then show ?thesis by (simp add: c_str_terminated)
qed

lemma initgenerator_host:
  assumes g: "registry s (LLightUserdata REGISTRY_KEY_GENERATOR) = LFunction (LuaFunction g)"
    and r: "lua_functions s g [LString (c_str text)] (host s) = (Inr rs, h)"
  shows "lua_initgenerator text s =
     Some (Ok () (s\<lparr>registry := (registry s)(LLightUserdata REGISTRY_KEY_ITERATOR := first_value rs),
                    host := h,
                    trace := trace s @ [Lua_function_called g [LString (c_str text)]]\<rparr>))"
proof -
  let ?s0 = "s\<lparr>stack := stack s @ [LFunction (LuaFunction g), LString (c_str text)]\<rparr>"
  have pre: "lua_pushstring (Some text) (lua_gettable_registry (lua_pushlightuserdata REGISTRY_KEY_GENERATOR s)) = ?s0"
    by (simp add: fetch_other(1) g)
  have call: "lua_call 1 1 ?s0
     = Some (Ok () (s\<lparr>stack := stack s @ [first_value rs], host := h,
                      trace := trace s @ [Lua_function_called g [LString (c_str text)]]\<rparr>))"
    unfolding lua_call_def
    using r
    by (subst luaD_call_function [where below = "stack s" and fn = "LuaFunction g" and args = "[LString (c_str text)]"])
       (simp_all add: adjust_results_Suc0)
  show ?thesis
    unfolding lua_initgenerator_def pre call
    by (simp add: store_iterator [where below = "stack s"])
qed

lemma stepgenerator_host:
  assumes it: "registry s (LLightUserdata REGISTRY_KEY_ITERATOR) = LFunction (LuaFunction it)"
    and r: "lua_functions s it [] (host s) = (Inr rs, h)"
  shows "first_value rs = LNil \<Longrightarrow>
           lua_stepgenerator s = Some (Ok NULL (s\<lparr>host := h, trace := trace s @ [Lua_function_called it []]\<rparr>))"
    and "first_value rs = LString a \<Longrightarrow> \<not> out_of_memory s \<Longrightarrow>
           lua_stepgenerator s =
             Some (Ok (Addr (brk s))
                    (s\<lparr>stack := stack s @ [LString a], host := h,
                       trace := trace s @ [Lua_function_called it []],
                       heap := (heap s)(brk s \<mapsto> strncpy_bytes a (Suc (length a))),
                       brk := Suc (brk s)\<rparr>))"
proof -
  let ?s0 = "s\<lparr>stack := stack s @ [LFunction (LuaFunction it)]\<rparr>"
  have pre: "lua_gettable_registry (lua_pushlightuserdata REGISTRY_KEY_ITERATOR s) = ?s0"
    by (simp add: fetch_other(2) it)
  have call: "lua_call 0 1 ?s0
     = Some (Ok () (s\<lparr>stack := stack s @ [first_value rs], host := h,
                      trace := trace s @ [Lua_function_called it []]\<rparr>))"
    unfolding lua_call_def
    using r
    by (subst luaD_call_function [where below = "stack s" and fn = "LuaFunction it" and args = "[]"])
       (simp_all add: adjust_results_Suc0)
  show "first_value rs = LNil \<Longrightarrow>
           lua_stepgenerator s = Some (Ok NULL (s\<lparr>host := h, trace := trace s @ [Lua_function_called it []]\<rparr>))"
    unfolding lua_stepgenerator_def pre call
    by (simp add: lua_isnil_def lua_type_def index2adr_def LUA_REGISTRYINDEX_def lua_pop_def)
  show "first_value rs = LString a \<Longrightarrow> \<not> out_of_memory s \<Longrightarrow>
           lua_stepgenerator s =
             Some (Ok (Addr (brk s))
                    (s\<lparr>stack := stack s @ [LString a], host := h,
                       trace := trace s @ [Lua_function_called it []],
                       heap := (heap s)(brk s \<mapsto> strncpy_bytes a (Suc (length a))),
                       brk := Suc (brk s)\<rparr>))"
    unfolding lua_stepgenerator_def pre call
    by (simp add: lua_isnil_def lua_type_def index2adr_def LUA_REGISTRYINDEX_def
        lua_tolstring_def malloc_def strncpy_def)
qed


lemma matches_from_done:
  "gen_function text (int n) s = Some (Ok NULL s') \<Longrightarrow>
   rl_completion_matches_from text n acc s = Some (Ok (rev acc) s')"
  by (subst rl_completion_matches_from.simps) simp

lemma matches_from_more:
  "gen_function text (int n) s = Some (Ok (Addr p) s') \<Longrightarrow>
   rl_completion_matches_from text n acc s
     = rl_completion_matches_from text (Suc n) (string_at (Addr p) s' # acc) s'"
  by (subst rl_completion_matches_from.simps) simp

text \<open>
  Claim C4, as stated: a callable whose successive invocations produce \<open>a\<close>, \<open>b\<close>, nil makes
  the bridge yield \<open>a\<close>, \<open>b\<close> and exhaustion. The bridge calls the callable once per
  generation, with the prefix, and takes what it returns as the iterator to call for the
  candidates ("a Lua function that returns an iterator of completions"). Function 1 of the
  example host produces \<open>apple\<close>, \<open>bar\<close>, nil on successive invocations; as completion
  source it is called once, its result \<open>apple\<close> is then called as a function, and the
  generation ends in a Lua error without a candidate.
\<close>

theorem callable_returning_candidates_counterexample:
  "(case rl_completion_matches ''a''
           (example_reading [LString ''> '', LFunction (LuaFunction 1)] (LFunction (LuaFunction 1)) []) of
      Some (Abrupt (Lua_error e) s') \<Rightarrow>
        e = LString ''attempt to call a string value''
        \<and> trace s' = [Lua_function_called 1 [LString ''a'']]
    | _ \<Rightarrow> False)"
proof -
  let ?s = "example_reading [LString ''> '', LFunction (LuaFunction 1)] (LFunction (LuaFunction 1)) []"
  have gen: "registry ?s (LLightUserdata REGISTRY_KEY_GENERATOR) = LFunction (LuaFunction 1)"
    by (simp add: example_reading_def)
  have r0: "lua_functions ?s 1 [LString (c_str ''a'')] (host ?s) = (Inr [LString ''apple''], 1)"
    by (simp add: example_reading_def example_world_def example_functions_def)
  let ?t1 = "?s\<lparr>registry := (registry ?s)(LLightUserdata REGISTRY_KEY_ITERATOR := first_value [LString ''apple'']),
                host := 1,
                trace := trace ?s @ [Lua_function_called 1 [LString (c_str ''a'')]]\<rparr>"
  have i: "lua_initgenerator ''a'' ?s = Some (Ok () ?t1)"
    by (rule initgenerator_host [OF gen r0])
  have st: "lua_stepgenerator ?t1
      = Some (Abrupt (Lua_error (LString ''attempt to call a string value''))
               (?t1\<lparr>stack := stack ?t1 @ [LString ''apple'']\<rparr>))"
    by (simp add: lua_stepgenerator_def fetch_other lua_call_def luaD_call_def first_value_def)
  have g: "gen_function ''a'' (int 0) ?s
      = Some (Abrupt (Lua_error (LString ''attempt to call a string value''))
               (?t1\<lparr>stack := stack ?t1 @ [LString ''apple'']\<rparr>))"
    using i st by (simp add: gen_function_def)
  have "rl_completion_matches ''a'' ?s
      = Some (Abrupt (Lua_error (LString ''attempt to call a string value''))
               (?t1\<lparr>stack := stack ?t1 @ [LString ''apple'']\<rparr>))"
    unfolding rl_completion_matches_def
    using g by (subst rl_completion_matches_from.simps) simp
  then show ?thesis
    by (simp add: example_reading_def example_world_def c_str_def NUL_def)
qed


text \<open>
  Claim C4, amended. The completion source is a callable that, called with the prefix,
  returns an iterator function, and the iterator's successive invocations (without
  arguments) produce the strings \<open>a\<close> and \<open>b\<close> and then nil; memory is available. Then one
  generation yields \<open>a\<close> and \<open>b\<close>, each as a C string (cut at its first 0 byte), and ends.
  The callable has been called once and the iterator three times, and nothing is called
  after the iterator has returned nil. No condition relates \<open>a\<close> and \<open>b\<close> to the prefix:
  the bridge does not filter.
\<close>

theorem callable_generation:
  assumes gen: "registry s (LLightUserdata REGISTRY_KEY_GENERATOR) = LFunction (LuaFunction g)"
    and r0: "lua_functions s g [LString (c_str text)] (host s) = (Inr r0, h1)"
    and v0: "first_value r0 = LFunction (LuaFunction it)"
    and r1: "lua_functions s it [] h1 = (Inr r1, h2)" and v1: "first_value r1 = LString a"
    and r2: "lua_functions s it [] h2 = (Inr r2, h3)" and v2: "first_value r2 = LString b"
    and r3: "lua_functions s it [] h3 = (Inr r3, h4)" and v3: "first_value r3 = LNil"
    and mem: "\<not> out_of_memory s"
  shows "\<exists>s'. rl_completion_matches text s = Some (Ok [c_str a, c_str b] s')
            \<and> trace s' = trace s @ [Lua_function_called g [LString (c_str text)],
                                      Lua_function_called it [], Lua_function_called it [],
                                      Lua_function_called it []]
            \<and> host s' = h4"
proof -
  let ?t1 = "s\<lparr>registry := (registry s)(LLightUserdata REGISTRY_KEY_ITERATOR := first_value r0),
                host := h1,
                trace := trace s @ [Lua_function_called g [LString (c_str text)]]\<rparr>"
  let ?t2 = "?t1\<lparr>stack := stack ?t1 @ [LString a], host := h2,
                 trace := trace ?t1 @ [Lua_function_called it []],
                 heap := (heap ?t1)(brk ?t1 \<mapsto> strncpy_bytes a (Suc (length a))),
                 brk := Suc (brk ?t1)\<rparr>"
  let ?t3 = "?t2\<lparr>stack := stack ?t2 @ [LString b], host := h3,
                 trace := trace ?t2 @ [Lua_function_called it []],
                 heap := (heap ?t2)(brk ?t2 \<mapsto> strncpy_bytes b (Suc (length b))),
                 brk := Suc (brk ?t2)\<rparr>"
  let ?t4 = "?t3\<lparr>host := h4, trace := trace ?t3 @ [Lua_function_called it []]\<rparr>"
  have i: "lua_initgenerator text s = Some (Ok () ?t1)"
    by (rule initgenerator_host [OF gen r0])
  have s1: "lua_stepgenerator ?t1 = Some (Ok (Addr (brk ?t1)) ?t2)"
    by (rule stepgenerator_host(2) [where it = it and rs = r1]) (simp_all add: v0 r1 v1 mem)
  have s2: "lua_stepgenerator ?t2 = Some (Ok (Addr (brk ?t2)) ?t3)"
    by (rule stepgenerator_host(2) [where it = it and rs = r2]) (simp_all add: v0 r2 v2 mem)
  have s3: "lua_stepgenerator ?t3 = Some (Ok NULL ?t4)"
    by (rule stepgenerator_host(1) [where it = it and rs = r3]) (simp_all add: v0 r3 v3)
  have g1: "gen_function text (int 0) s = Some (Ok (Addr (brk ?t1)) ?t2)"
    using i s1 by (simp add: gen_function_def)
  have g2: "gen_function text (int (Suc 0)) ?t2 = Some (Ok (Addr (brk ?t2)) ?t3)"
    using s2 by (simp add: gen_function_def)
  have g3: "gen_function text (int (Suc (Suc 0))) ?t3 = Some (Ok NULL ?t4)"
    using s3 by (simp add: gen_function_def)
  have c1: "string_at (Addr (brk ?t1)) ?t2 = c_str a"
    by (simp add: string_at_def c_str_strncpy)
  have c2: "string_at (Addr (brk ?t2)) ?t3 = c_str b"
    by (simp add: string_at_def c_str_strncpy)
  have "rl_completion_matches text s = Some (Ok [c_str a, c_str b] ?t4)"
    unfolding rl_completion_matches_def
    by (simp only: matches_from_more [OF g1] matches_from_more [OF g2] c1 c2
        matches_from_done [OF g3] rev.simps append.simps)
  then show ?thesis
    by (intro exI [of _ ?t4]) simp
qed


text \<open>
  The example host with the generator 0 as completion source and the prefix \<open>a\<close>: the
  candidates are \<open>apple\<close> and \<open>bar\<close>, the second of which does not start with the prefix.
\<close>

theorem callable_generation_witness:
  "registry (example_reading [LString ''> '', LFunction (LuaFunction 0)] (LFunction (LuaFunction 0)) [])
       (LLightUserdata REGISTRY_KEY_GENERATOR) = LFunction (LuaFunction 0)
   \<and> example_functions 0 [LString (c_str ''a'')] 0 = (Inr [LFunction (LuaFunction 1)], 0)
   \<and> example_functions 1 [] 0 = (Inr [LString ''apple''], 1)
   \<and> example_functions 1 [] 1 = (Inr [LString ''bar''], 2)
   \<and> example_functions 1 [] 2 = (Inr [LNil], 3)
   \<and> \<not> out_of_memory (example_reading [LString ''> '', LFunction (LuaFunction 0)] (LFunction (LuaFunction 0)) [])
   \<and> (\<exists>s'. rl_completion_matches ''a''
               (example_reading [LString ''> '', LFunction (LuaFunction 0)] (LFunction (LuaFunction 0)) [])
             = Some (Ok [''apple'', ''bar''] s')
          \<and> trace s' = [Lua_function_called 0 [LString ''a''], Lua_function_called 1 [],
                          Lua_function_called 1 [], Lua_function_called 1 []]
          \<and> host s' = 3)"
proof -
  let ?s = "example_reading [LString ''> '', LFunction (LuaFunction 0)] (LFunction (LuaFunction 0)) []"
  have gen: "registry ?s (LLightUserdata REGISTRY_KEY_GENERATOR) = LFunction (LuaFunction 0)"
    by (simp add: example_reading_def)
  have r0: "lua_functions ?s 0 [LString (c_str ''a'')] (host ?s) = (Inr [LFunction (LuaFunction 1)], 0)"
    by (simp add: example_reading_def example_world_def example_functions_def)
  have r1: "lua_functions ?s 1 [] 0 = (Inr [LString ''apple''], 1)"
    and r2: "lua_functions ?s 1 [] 1 = (Inr [LString ''bar''], 2)"
    and r3: "lua_functions ?s 1 [] 2 = (Inr [LNil], 3)"
    by (simp_all add: example_reading_def example_world_def example_functions_def)
  have mem: "\<not> out_of_memory ?s"
    by (simp add: example_reading_def example_world_def)
  have v0: "first_value [LFunction (LuaFunction 1)] = LFunction (LuaFunction 1)"
    and v1: "first_value [LString ''apple''] = LString ''apple''"
    and v2: "first_value [LString ''bar''] = LString ''bar''"
    and v3: "first_value [LNil] = LNil"
    by (simp_all add: first_value_def)
  from callable_generation [OF gen r0 v0 r1 v1 r2 v2 r3 v3 mem]
  show ?thesis
    by (simp add: c_str_def NUL_def example_reading_def example_world_def
        example_functions_def)
qed

subsection \<open>A table as completion source\<close>

lemma strncmp_from_eq:
  assumes "NUL \<notin> set p" and "i + n \<le> length p" and "i + n \<le> length e"
  shows "(strncmp_from i p e n = 0) = (take n (drop i p) = take n (drop i e))"
  using assms(2,3)
proof (induction n arbitrary: i)
  case 0
  then show ?case by simp
next
  case (Suc n)
  then have i: "i < length p" "i < length e" by simp_all
  then have b: "byte_at p i = p ! i" "byte_at e i = e ! i" by (simp_all add: byte_at_def)
  from i assms(1) have nz: "p ! i \<noteq> NUL" by (metis nth_mem)
  have dp: "drop i p = p ! i # drop (Suc i) p" and de: "drop i e = e ! i # drop (Suc i) e"
    using i by (simp_all add: Cons_nth_drop_Suc)
  from Suc.prems have "Suc i + n \<le> length p" "Suc i + n \<le> length e" by simp_all
  from Suc.IH [OF this] show ?case
    by (simp add: b nz dp de)
qed

lemma strncmp_prefix:
  assumes "NUL \<notin> set p" and "length p \<le> length e"
  shows "(strncmp (Some p) (Some e) (length p) = Some 0) = (take (length p) e = p)"
  using strncmp_from_eq [OF assms(1), of 0 "length p" e] assms(2)
  by (auto simp: strncmp_def)

lemma NUL_c_str: "NUL \<notin> set (c_str bs)"
  by (auto simp: c_str_def dest: set_takeWhileD)

lemma upvalue_index:
  "length (upvalues s) = 4 \<Longrightarrow> index2adr (lua_upvalueindex 1) s = Upvalue_slot 0"
  "length (upvalues s) = 4 \<Longrightarrow> index2adr (lua_upvalueindex 2) s = Upvalue_slot 1"
  "length (upvalues s) = 4 \<Longrightarrow> index2adr (lua_upvalueindex 3) s = Upvalue_slot 2"
  "length (upvalues s) = 4 \<Longrightarrow> index2adr (lua_upvalueindex 4) s = Upvalue_slot 3"
  "length (upvalues s) = 1 \<Longrightarrow> index2adr (lua_upvalueindex 1) s = Upvalue_slot 0"
  by (simp_all add: index2adr_def lua_upvalueindex_def LUA_GLOBALSINDEX_def LUA_REGISTRYINDEX_def)

lemma upvalues_running:
  "ci_func s = Some a \<Longrightarrow> a < length (closures s) \<Longrightarrow> closures s ! a = (f, ups) \<Longrightarrow> upvalues s = ups"
  by (simp add: upvalues_def)

lemma ipairsiterator_run:
  assumes ci: "ci_func s = Some c" and c: "c < length (closures s)"
    and cl: "closures s ! c = (F_lua_ipairsiterator, [LTable t])"
    and st: "stack s = [LString p]"
    and ip: "globals s ''ipairs'' = LFunction (LibFunction F_ipairs)"
  shows "lua_ipairsiterator s =
     Some (Ok 1 (s\<lparr>stack := [LString p, LFunction (CClosure (length (closures s)))],
                   closures := closures s @
                     [(F_lua_iterstep, [LFunction (LibFunction F_ipairsaux), LTable t, LNumber 0, LString p])]\<rparr>))"
proof -
  have up: "upvalues (lua_getglobal ''ipairs'' s) = [LTable t]"
    using ci c cl by (simp add: upvalues_def lua_getglobal_def push_def)
  let ?s0 = "s\<lparr>stack := [LString p, LFunction (LibFunction F_ipairs), LTable t]\<rparr>"
  have pre: "lua_pushvalue (lua_upvalueindex 1) (lua_getglobal ''ipairs'' s) = ?s0"
    using up by (simp add: lua_pushvalue_def upvalue_index(5)) (simp add: lua_getglobal_def push_def st ip)
  have call: "lua_call_lib 1 3 ?s0
     = Some (Ok () (s\<lparr>stack := [LString p, LFunction (LibFunction F_ipairsaux), LTable t, LNumber 0]\<rparr>))"
    unfolding lua_call_lib_def
    by (subst luaD_call_function [where below = "[LString p]" and fn = "LibFunction F_ipairs" and args = "[LTable t]"])
       (simp_all add: luaB_ipairs_def adjust_results_def)
  show ?thesis
    unfolding lua_ipairsiterator_def pre call
    by (simp add: lua_pushvalue_def index2adr_def push_def lua_pushcclosure_def)
qed

lemma initgenerator_table:
  assumes "table_generator_installed es s"
    and ip: "globals s ''ipairs'' = LFunction (LibFunction F_ipairs)"
  shows "lua_initgenerator text s =
     Some (Ok () (s\<lparr>closures := closures s @
                      [(F_lua_iterstep, [LFunction (LibFunction F_ipairsaux), LTable (map LString es),
                                         LNumber 0, LString (c_str text)])],
                    registry := (registry s)(LLightUserdata REGISTRY_KEY_ITERATOR :=
                                   LFunction (CClosure (length (closures s))))\<rparr>))"
proof -
  from assms(1) obtain c where g: "registry s (LLightUserdata REGISTRY_KEY_GENERATOR) = LFunction (CClosure c)"
    and c: "c < length (closures s)" "closures s ! c = (F_lua_ipairsiterator, [LTable (map LString es)])"
    by (auto simp: table_generator_installed_def split: lua_value.splits lua_function.splits)
  let ?s0 = "s\<lparr>stack := stack s @ [LFunction (CClosure c), LString (c_str text)]\<rparr>"
  let ?u = "s\<lparr>stack := [LString (c_str text)], ci_func := Some c\<rparr>"
  have pre: "lua_pushstring (Some text) (lua_gettable_registry (lua_pushlightuserdata REGISTRY_KEY_GENERATOR s)) = ?s0"
    by (simp add: fetch_other(1) g)
  have run: "lua_ipairsiterator ?u =
     Some (Ok 1 (?u\<lparr>stack := [LString (c_str text), LFunction (CClosure (length (closures ?u)))],
                   closures := closures ?u @
                     [(F_lua_iterstep, [LFunction (LibFunction F_ipairsaux), LTable (map LString es),
                                        LNumber 0, LString (c_str text)])]\<rparr>))"
    by (rule ipairsiterator_run [where c = c]) (use c ip in simp_all)
  have call: "lua_call 1 1 ?s0
     = Some (Ok () (s\<lparr>stack := stack s @ [LFunction (CClosure (length (closures s)))],
                      closures := closures s @
                        [(F_lua_iterstep, [LFunction (LibFunction F_ipairsaux), LTable (map LString es),
                                           LNumber 0, LString (c_str text)])]\<rparr>))"
    unfolding lua_call_def
    using c run
    by (subst luaD_call_function [where below = "stack s" and fn = "CClosure c" and args = "[LString (c_str text)]"])
       (simp_all add: not_le adjust_results_def)
  show ?thesis
    unfolding lua_initgenerator_def pre call
    by (simp add: store_iterator [where below = "stack s"])
qed


lemma push_upvalues:
  assumes ci: "ci_func u = Some a" and a: "a < length (closures u)"
    and cl: "closures u ! a = (f, [v1, v2, v3, v4])"
  shows "lua_pushvalue (lua_upvalueindex 3)
           (lua_pushvalue (lua_upvalueindex 2)
             (lua_pushvalue (lua_upvalueindex 1) u))
         = u\<lparr>stack := stack u @ [v1, v2, v3]\<rparr>"
proof -
  have up: "\<And>st. upvalues (u\<lparr>stack := st\<rparr>) = [v1, v2, v3, v4]"
    using ci a cl by (simp add: upvalues_def)
  have up0: "upvalues u = [v1, v2, v3, v4]"
    using ci a cl by (simp add: upvalues_def)
  have 1: "lua_pushvalue (lua_upvalueindex 1) u = u\<lparr>stack := stack u @ [v1]\<rparr>"
    by (simp add: lua_pushvalue_def upvalue_index up0 push_def)
  have 2: "lua_pushvalue (lua_upvalueindex 2) (u\<lparr>stack := stack u @ [v1]\<rparr>) = u\<lparr>stack := stack u @ [v1, v2]\<rparr>"
    by (simp add: lua_pushvalue_def upvalue_index up push_def)
  have 3: "lua_pushvalue (lua_upvalueindex 3) (u\<lparr>stack := stack u @ [v1, v2]\<rparr>) = u\<lparr>stack := stack u @ [v1, v2, v3]\<rparr>"
    by (simp add: lua_pushvalue_def upvalue_index up push_def)
  show ?thesis by (simp only: 1 2 3)
qed

lemma swap_and_store:
  assumes ci: "ci_func u = Some a" and a: "a < length (closures u)"
    and cl: "closures u ! a = (f, [v1, v2, v3, v4])"
  shows "lua_replace (lua_upvalueindex 3) (lua_insert (- 2) (u\<lparr>stack := [k, v]\<rparr>))
         = u\<lparr>stack := [v], closures := (closures u)[a := (f, [v1, v2, k, v4])]\<rparr>"
proof -
  have ins: "lua_insert (- 2) (u\<lparr>stack := [k, v]\<rparr>) = u\<lparr>stack := [v, k]\<rparr>"
    by (simp add: lua_insert_def index2adr_def LUA_REGISTRYINDEX_def)
  have up: "upvalues (u\<lparr>stack := [v, k]\<rparr>) = [v1, v2, v3, v4]"
    using ci a cl by (simp add: upvalues_def)
  show ?thesis
    unfolding ins
    using ci a cl
    by (simp add: lua_replace_def upvalue_index up lua_pop_def)
qed

lemma iterstep_loop_end:
  assumes ci: "ci_func u = Some a" and a: "a < length (closures u)"
    and cl: "closures u ! a = (F_lua_iterstep,
               [LFunction (LibFunction F_ipairsaux), LTable (map LString es), LNumber (int i), LString p])"
    and st: "stack u = []" and i: "length es \<le> i"
  shows "lua_iterstep_loop pref len u =
     Some (Ok 1 (u\<lparr>stack := [LNil],
                   closures := (closures u)[a := (F_lua_iterstep,
                     [LFunction (LibFunction F_ipairsaux), LTable (map LString es), LNil, LString p])]\<rparr>))"
proof -
  let ?s0 = "u\<lparr>stack := [LFunction (LibFunction F_ipairsaux), LTable (map LString es), LNumber (int i)]\<rparr>"
  have pre: "lua_pushvalue (lua_upvalueindex 3)
           (lua_pushvalue (lua_upvalueindex 2)
             (lua_pushvalue (lua_upvalueindex 1) u)) = ?s0"
    using push_upvalues [OF ci a cl] st by simp
  have call: "lua_call_lib 2 2 ?s0 = Some (Ok () (u\<lparr>stack := [LNil, LNil]\<rparr>))"
    unfolding lua_call_lib_def
    using i
    by (subst luaD_call_function [where below = "[]" and fn = "LibFunction F_ipairsaux"
          and args = "[LTable (map LString es), LNumber (int i)]"])
       (simp_all add: ipairsaux_def rawgeti_def adjust_results_def numeral_2_eq_2)
  show ?thesis
    by (subst lua_iterstep_loop.simps)
       (simp add: pre call swap_and_store [OF ci a cl] lua_isnil_def lua_type_def index2adr_def
          LUA_REGISTRYINDEX_def)
qed

lemma iterstep_loop_entry:
  assumes ci: "ci_func u = Some a" and a: "a < length (closures u)"
    and cl: "closures u ! a = (F_lua_iterstep,
               [LFunction (LibFunction F_ipairsaux), LTable (map LString es), LNumber (int i), LString p])"
    and st: "stack u = []" and i: "i < length es" and p: "NUL \<notin> set p"
  shows "lua_iterstep_loop (Some p) (length p) u =
     (if starts_with p (es ! i)
      then Some (Ok 1 (u\<lparr>stack := [LString (es ! i)],
                   closures := (closures u)[a := (F_lua_iterstep,
                     [LFunction (LibFunction F_ipairsaux), LTable (map LString es),
                      LNumber (int (Suc i)), LString p])]\<rparr>))
      else lua_iterstep_loop (Some p) (length p)
             (u\<lparr>stack := [],
                closures := (closures u)[a := (F_lua_iterstep,
                     [LFunction (LibFunction F_ipairsaux), LTable (map LString es),
                      LNumber (int (Suc i)), LString p])]\<rparr>))"
proof -
  let ?s0 = "u\<lparr>stack := [LFunction (LibFunction F_ipairsaux), LTable (map LString es), LNumber (int i)]\<rparr>"
  let ?s2 = "u\<lparr>stack := [LString (es ! i)],
                   closures := (closures u)[a := (F_lua_iterstep,
                     [LFunction (LibFunction F_ipairsaux), LTable (map LString es),
                      LNumber (int (Suc i)), LString p])]\<rparr>"
  let ?s3 = "u\<lparr>stack := [],
                   closures := (closures u)[a := (F_lua_iterstep,
                     [LFunction (LibFunction F_ipairsaux), LTable (map LString es),
                      LNumber (int (Suc i)), LString p])]\<rparr>"
  have pre: "lua_pushvalue (lua_upvalueindex 3)
           (lua_pushvalue (lua_upvalueindex 2)
             (lua_pushvalue (lua_upvalueindex 1) u)) = ?s0"
    using push_upvalues [OF ci a cl] st by simp
  have call: "lua_call_lib 2 2 ?s0 = Some (Ok () (u\<lparr>stack := [LNumber (int i + 1), LString (es ! i)]\<rparr>))"
    unfolding lua_call_lib_def
    using i
    by (subst luaD_call_function [where below = "[]" and fn = "LibFunction F_ipairsaux"
          and args = "[LTable (map LString es), LNumber (int i)]"])
       (simp_all add: ipairsaux_def rawgeti_def adjust_results_def numeral_2_eq_2 nat_add_distrib)
  have sw: "lua_replace (lua_upvalueindex 3) (lua_insert (- 2) (u\<lparr>stack := [LNumber (int i + 1), LString (es ! i)]\<rparr>)) = ?s2"
    using swap_and_store [OF ci a cl, of "LNumber (int i + 1)" "LString (es ! i)"]
    by (simp add: add.commute)
  have nn: "\<not> lua_isnil (- 1) ?s2"
    by (simp add: lua_isnil_def lua_type_def index2adr_def LUA_REGISTRYINDEX_def)
  have tl: "lua_tolstring (- 1) ?s2 = (Some (es ! i), length (es ! i), ?s2)"
    by (simp add: lua_tolstring_def index2adr_def LUA_REGISTRYINDEX_def)
  have cmp: "length p \<le> length (es ! i) \<Longrightarrow>
       (strncmp (Some p) (Some (es ! i)) (length p) = Some 0) = (take (length p) (es ! i) = p)"
    by (rule strncmp_prefix [OF p])
  have sn: "strncmp (Some p) (Some (es ! i)) (length p) \<noteq> None"
    by (simp add: strncmp_def)
  have pop: "lua_pop 1 ?s2 = ?s3"
    by (simp add: lua_pop_def)
  show ?thesis
    apply (subst lua_iterstep_loop.simps)
    apply (simp only: pre call sw option.case res.case Let_def nn if_False tl prod.case pop)
    using cmp sn
    apply (auto simp: starts_with_def split: option.splits)
    done
qed


lemma iterstep_loop_run:
  assumes p: "NUL \<notin> set p"
  shows "ci_func u = Some a \<Longrightarrow> a < length (closures u) \<Longrightarrow>
     closures u ! a = (F_lua_iterstep,
        [LFunction (LibFunction F_ipairsaux), LTable (map LString es), LNumber (int i), LString p]) \<Longrightarrow>
     stack u = [] \<Longrightarrow> i \<le> length es \<Longrightarrow>
     lua_iterstep_loop (Some p) (length p) u =
       Some (Ok 1
         (case dropWhile (\<lambda>e. \<not> starts_with p e) (drop i es) of
            [] \<Rightarrow>
              u\<lparr>stack := [LNil],
                closures := (closures u)[a := (F_lua_iterstep,
                   [LFunction (LibFunction F_ipairsaux), LTable (map LString es), LNil, LString p])]\<rparr>
          | e # rest \<Rightarrow>
              u\<lparr>stack := [LString e],
                closures := (closures u)[a := (F_lua_iterstep,
                   [LFunction (LibFunction F_ipairsaux), LTable (map LString es),
                    LNumber (int (length es - length rest)), LString p])]\<rparr>))"
proof (induction "length es - i" arbitrary: i u)
  case 0
  then have le: "length es \<le> i" by simp
  from iterstep_loop_end [OF "0.prems"(1,2,3,4) le] le show ?case by simp
next
  case (Suc k)
  then have i: "i < length es" by simp
  then have d: "drop i es = es ! i # drop (Suc i) es" by (simp add: Cons_nth_drop_Suc)
  note e = iterstep_loop_entry [OF Suc.prems(1,2,3,4) i p]
  show ?case
  proof (cases "starts_with p (es ! i)")
    case True
    with e d i show ?thesis by (simp add: Suc_diff_le)
  next
    case False
    let ?u = "u\<lparr>stack := [],
                closures := (closures u)[a := (F_lua_iterstep,
                     [LFunction (LibFunction F_ipairsaux), LTable (map LString es),
                      LNumber (int (Suc i)), LString p])]\<rparr>"
    have k: "k = length es - Suc i" using Suc.hyps(2) by simp
    have ih: "lua_iterstep_loop (Some p) (length p) ?u =
       Some (Ok 1
         (case dropWhile (\<lambda>e. \<not> starts_with p e) (drop (Suc i) es) of
            [] \<Rightarrow>
              ?u\<lparr>stack := [LNil],
                closures := (closures ?u)[a := (F_lua_iterstep,
                   [LFunction (LibFunction F_ipairsaux), LTable (map LString es), LNil, LString p])]\<rparr>
          | e # rest \<Rightarrow>
              ?u\<lparr>stack := [LString e],
                closures := (closures ?u)[a := (F_lua_iterstep,
                   [LFunction (LibFunction F_ipairsaux), LTable (map LString es),
                    LNumber (int (length es - length rest)), LString p])]\<rparr>))"
      using Suc.prems i by (intro Suc.hyps(1) [OF k]) simp_all
    have upd: "\<And>x y. ?u\<lparr>stack := x, closures := (closures ?u)[a := y]\<rparr>
                      = u\<lparr>stack := x, closures := (closures u)[a := y]\<rparr>"
      by simp
    have dw: "dropWhile (\<lambda>e. \<not> starts_with p e) (drop i es)
              = dropWhile (\<lambda>e. \<not> starts_with p e) (drop (Suc i) es)"
      using d False by simp
    have "lua_iterstep_loop (Some p) (length p) u = lua_iterstep_loop (Some p) (length p) ?u"
      using e False by simp
    also have "\<dots> = Some (Ok 1
         (case dropWhile (\<lambda>e. \<not> starts_with p e) (drop (Suc i) es) of
            [] \<Rightarrow>
              u\<lparr>stack := [LNil],
                closures := (closures u)[a := (F_lua_iterstep,
                   [LFunction (LibFunction F_ipairsaux), LTable (map LString es), LNil, LString p])]\<rparr>
          | e # rest \<Rightarrow>
              u\<lparr>stack := [LString e],
                closures := (closures u)[a := (F_lua_iterstep,
                   [LFunction (LibFunction F_ipairsaux), LTable (map LString es),
                    LNumber (int (length es - length rest)), LString p])]\<rparr>))"
      unfolding ih upd by (rule refl)
    finally show ?thesis unfolding dw .
  qed
qed

lemma iterstep_run:
  assumes ci: "ci_func u = Some a" and a: "a < length (closures u)"
    and cl: "closures u ! a = (F_lua_iterstep,
        [LFunction (LibFunction F_ipairsaux), LTable (map LString es), LNumber (int i), LString p])"
    and st: "stack u = []" and i: "i \<le> length es" and p: "NUL \<notin> set p"
  shows "lua_iterstep u =
       Some (Ok 1
         (case dropWhile (\<lambda>e. \<not> starts_with p e) (drop i es) of
            [] \<Rightarrow>
              u\<lparr>stack := [LNil],
                closures := (closures u)[a := (F_lua_iterstep,
                   [LFunction (LibFunction F_ipairsaux), LTable (map LString es), LNil, LString p])]\<rparr>
          | e # rest \<Rightarrow>
              u\<lparr>stack := [LString e],
                closures := (closures u)[a := (F_lua_iterstep,
                   [LFunction (LibFunction F_ipairsaux), LTable (map LString es),
                    LNumber (int (length es - length rest)), LString p])]\<rparr>))"
proof -
  have up: "upvalues u = [LFunction (LibFunction F_ipairsaux), LTable (map LString es), LNumber (int i), LString p]"
    using ci a cl by (simp add: upvalues_def)
  have tl: "lua_tolstring (lua_upvalueindex 4) u = (Some p, length p, u)"
    by (simp add: lua_tolstring_def upvalue_index up)
  show ?thesis
    unfolding lua_iterstep_def tl prod.case
    by (rule iterstep_loop_run [OF p ci a cl st i])
qed


lemma stepgenerator_table:
  assumes it: "registry s (LLightUserdata REGISTRY_KEY_ITERATOR) = LFunction (CClosure a)"
    and a: "a < length (closures s)"
    and cl: "closures s ! a = (F_lua_iterstep,
        [LFunction (LibFunction F_ipairsaux), LTable (map LString es), LNumber (int i), LString p])"
    and i: "i \<le> length es" and p: "NUL \<notin> set p" and mem: "\<not> out_of_memory s"
  shows "lua_stepgenerator s =
     (case dropWhile (\<lambda>e. \<not> starts_with p e) (drop i es) of
        [] \<Rightarrow>
          Some (Ok NULL
            (s\<lparr>closures := (closures s)[a := (F_lua_iterstep,
                   [LFunction (LibFunction F_ipairsaux), LTable (map LString es), LNil, LString p])]\<rparr>))
      | e # rest \<Rightarrow>
          Some (Ok (Addr (brk s))
            (s\<lparr>stack := stack s @ [LString e],
               closures := (closures s)[a := (F_lua_iterstep,
                   [LFunction (LibFunction F_ipairsaux), LTable (map LString es),
                    LNumber (int (length es - length rest)), LString p])],
               heap := (heap s)(brk s \<mapsto> strncpy_bytes e (Suc (length e))),
               brk := Suc (brk s)\<rparr>)))"
proof -
  let ?s0 = "s\<lparr>stack := stack s @ [LFunction (CClosure a)]\<rparr>"
  let ?u = "s\<lparr>stack := [], ci_func := Some a\<rparr>"
  have pre: "lua_gettable_registry (lua_pushlightuserdata REGISTRY_KEY_ITERATOR s) = ?s0"
    by (simp add: fetch_other(2) it)
  have run: "lua_iterstep ?u =
       Some (Ok 1
         (case dropWhile (\<lambda>e. \<not> starts_with p e) (drop i es) of
            [] \<Rightarrow>
              ?u\<lparr>stack := [LNil],
                closures := (closures ?u)[a := (F_lua_iterstep,
                   [LFunction (LibFunction F_ipairsaux), LTable (map LString es), LNil, LString p])]\<rparr>
          | e # rest \<Rightarrow>
              ?u\<lparr>stack := [LString e],
                closures := (closures ?u)[a := (F_lua_iterstep,
                   [LFunction (LibFunction F_ipairsaux), LTable (map LString es),
                    LNumber (int (length es - length rest)), LString p])]\<rparr>))"
    by (rule iterstep_run [where a = a and i = i]) (use a cl i p in simp_all)
  show ?thesis
  proof (cases "dropWhile (\<lambda>e. \<not> starts_with p e) (drop i es)")
    case Nil
    have c: "lua_call 0 1 ?s0 = Some (Ok ()
         (s\<lparr>stack := stack s @ [LNil],
            closures := (closures s)[a := (F_lua_iterstep,
                   [LFunction (LibFunction F_ipairsaux), LTable (map LString es), LNil, LString p])]\<rparr>))"
      unfolding lua_call_def
      using a cl run Nil
      by (subst luaD_call_function [where below = "stack s" and fn = "CClosure a" and args = "[]"])
         (simp_all add: not_le adjust_results_def)
    show ?thesis
      unfolding lua_stepgenerator_def pre c Nil
      by (simp add: lua_isnil_def lua_type_def index2adr_def LUA_REGISTRYINDEX_def lua_pop_def)
  next
    case (Cons e rest)
    have c: "lua_call 0 1 ?s0 = Some (Ok ()
         (s\<lparr>stack := stack s @ [LString e],
            closures := (closures s)[a := (F_lua_iterstep,
                   [LFunction (LibFunction F_ipairsaux), LTable (map LString es),
                    LNumber (int (length es - length rest)), LString p])]\<rparr>))"
      unfolding lua_call_def
      using a cl run Cons
      by (subst luaD_call_function [where below = "stack s" and fn = "CClosure a" and args = "[]"])
         (simp_all add: not_le adjust_results_def)
    show ?thesis
      unfolding lua_stepgenerator_def pre c Cons
      using mem
      by (simp add: lua_isnil_def lua_type_def index2adr_def LUA_REGISTRYINDEX_def
          lua_tolstring_def malloc_def strncpy_def)
  qed
qed


lemma dropWhile_Nil_filter:
  "dropWhile (\<lambda>e. \<not> P e) xs = [] \<Longrightarrow> filter P xs = []"
  by (simp add: dropWhile_eq_Nil_conv filter_empty_conv)

lemma dropWhile_Cons_filter:
  assumes "dropWhile (\<lambda>e. \<not> P e) xs = e # rest"
  shows "filter P xs = e # filter P rest"
proof -
  have "P e" using hd_dropWhile [of "\<lambda>e. \<not> P e" xs] assms by simp
  moreover have "filter P (takeWhile (\<lambda>e. \<not> P e) xs) = []"
    by (auto simp: filter_empty_conv dest: set_takeWhileD)
  moreover have "xs = takeWhile (\<lambda>e. \<not> P e) xs @ e # rest"
    using takeWhile_dropWhile_id [of "\<lambda>e. \<not> P e" xs] assms by simp
  ultimately show ?thesis
    by (metis append_Nil filter.simps(2) filter_append)
qed

lemma dropWhile_Cons_suffix:
  assumes "dropWhile Q (drop i es) = e # rest" and "i \<le> length es"
  shows "drop (length es - length rest) es = rest"
    and "i < length es - length rest" and "length es - length rest \<le> length es"
proof -
  let ?A = "take i es @ takeWhile Q (drop i es) @ [e]"
  have "drop i es = takeWhile Q (drop i es) @ e # rest"
    using takeWhile_dropWhile_id [of Q "drop i es"] assms(1) by simp
  then have es: "es = ?A @ rest"
    by (metis append.assoc append_Cons append_Nil append_take_drop_id)
  then have len: "length es - length rest = length ?A"
    by (metis add_diff_cancel_right' length_append)
  from es show "drop (length es - length rest) es = rest"
    unfolding len by (metis append_eq_conv_conj)
  from assms(2) show "i < length es - length rest" unfolding len by simp
  show "length es - length rest \<le> length es" by simp
qed

lemma table_generation_from:
  assumes p: "NUL \<notin> set p"
  shows "gen_function text (int n) s0 = lua_stepgenerator s \<Longrightarrow>
     registry s (LLightUserdata REGISTRY_KEY_ITERATOR) = LFunction (CClosure a) \<Longrightarrow>
     a < length (closures s) \<Longrightarrow>
     closures s ! a = (F_lua_iterstep,
        [LFunction (LibFunction F_ipairsaux), LTable (map LString es), LNumber (int i), LString p]) \<Longrightarrow>
     i \<le> length es \<Longrightarrow> \<not> out_of_memory s \<Longrightarrow>
     \<exists>s'. rl_completion_matches_from text n acc s0
            = Some (Ok (rev acc @ map c_str (filter (starts_with p) (drop i es))) s')
        \<and> trace s' = trace s \<and> host s' = host s \<and> registry s' = registry s
        \<and> length (closures s') = length (closures s)
        \<and> (\<forall>c. c \<noteq> a \<longrightarrow> closures s' ! c = closures s ! c)"
proof (induction "length es - i" arbitrary: i s s0 n acc rule: less_induct)
  case less
  note step = stepgenerator_table [OF less.prems(2,3,4,5) p less.prems(6)]
  show ?case
  proof (cases "dropWhile (\<lambda>e. \<not> starts_with p e) (drop i es)")
    case Nil
    let ?s' = "s\<lparr>closures := (closures s)[a := (F_lua_iterstep,
                   [LFunction (LibFunction F_ipairsaux), LTable (map LString es), LNil, LString p])]\<rparr>"
    from step Nil less.prems(1) have "gen_function text (int n) s0 = Some (Ok NULL ?s')" by simp
    from matches_from_done [OF this] dropWhile_Nil_filter [OF Nil]
    have "rl_completion_matches_from text n acc s0
            = Some (Ok (rev acc @ map c_str (filter (starts_with p) (drop i es))) ?s')"
      by simp
    then show ?thesis by (intro exI [of _ ?s']) simp
  next
    case (Cons e rest)
    let ?i = "length es - length rest"
    let ?s2 = "s\<lparr>stack := stack s @ [LString e],
               closures := (closures s)[a := (F_lua_iterstep,
                   [LFunction (LibFunction F_ipairsaux), LTable (map LString es),
                    LNumber (int ?i), LString p])],
               heap := (heap s)(brk s \<mapsto> strncpy_bytes e (Suc (length e))),
               brk := Suc (brk s)\<rparr>"
    note suf = dropWhile_Cons_suffix [OF Cons less.prems(5)]
    from step Cons less.prems(1)
    have g: "gen_function text (int n) s0 = Some (Ok (Addr (brk s)) ?s2)" by simp
    have sa: "string_at (Addr (brk s)) ?s2 = c_str e"
      by (simp add: string_at_def c_str_strncpy)
    have m: "rl_completion_matches_from text n acc s0
             = rl_completion_matches_from text (Suc n) (c_str e # acc) ?s2"
      using matches_from_more [OF g, of acc] sa by simp
    have "\<exists>s'. rl_completion_matches_from text (Suc n) (c_str e # acc) ?s2
            = Some (Ok (rev (c_str e # acc) @ map c_str (filter (starts_with p) (drop ?i es))) s')
        \<and> trace s' = trace ?s2 \<and> host s' = host ?s2 \<and> registry s' = registry ?s2
        \<and> length (closures s') = length (closures ?s2)
        \<and> (\<forall>c. c \<noteq> a \<longrightarrow> closures s' ! c = closures ?s2 ! c)"
    proof (rule less.hyps)
      show "length es - ?i < length es - i" using suf(2,3) by simp
      show "gen_function text (int (Suc n)) ?s2 = lua_stepgenerator ?s2"
        by (simp add: gen_function_def)
      show "registry ?s2 (LLightUserdata REGISTRY_KEY_ITERATOR) = LFunction (CClosure a)"
        using less.prems(2) by simp
      show "a < length (closures ?s2)" using less.prems(3) by simp
      show "closures ?s2 ! a = (F_lua_iterstep,
        [LFunction (LibFunction F_ipairsaux), LTable (map LString es), LNumber (int ?i), LString p])"
        using less.prems(3) by simp
      show "?i \<le> length es" by simp
      show "\<not> out_of_memory ?s2" using less.prems(6) by simp
    qed
    then obtain s' where s': "rl_completion_matches_from text (Suc n) (c_str e # acc) ?s2
            = Some (Ok (rev (c_str e # acc) @ map c_str (filter (starts_with p) (drop ?i es))) s')"
        "trace s' = trace ?s2" "host s' = host ?s2" "registry s' = registry ?s2"
        "length (closures s') = length (closures ?s2)"
        "\<forall>c. c \<noteq> a \<longrightarrow> closures s' ! c = closures ?s2 ! c"
      by blast
    have f: "filter (starts_with p) (drop i es) = e # filter (starts_with p) (drop ?i es)"
      using dropWhile_Cons_filter [OF Cons] suf(1) by simp
    have "rl_completion_matches_from text n acc s0
            = Some (Ok (rev acc @ map c_str (filter (starts_with p) (drop i es))) s')"
      unfolding m s'(1) f by simp
    with s'(2-6) show ?thesis by (intro exI [of _ s']) simp
  qed
qed

lemma table_generation_run:
  assumes inst: "table_generator_installed entries s"
    and ip: "globals s ''ipairs'' = LFunction (LibFunction F_ipairs)"
    and mem: "\<not> out_of_memory s"
  shows "\<exists>s'. rl_completion_matches text s
            = Some (Ok (map c_str (filter (starts_with (c_str text)) entries)) s')
        \<and> trace s' = trace s \<and> host s' = host s \<and> table_generator_installed entries s'"
proof -
  let ?a = "length (closures s)"
  let ?s1 = "s\<lparr>closures := closures s @
                      [(F_lua_iterstep, [LFunction (LibFunction F_ipairsaux), LTable (map LString entries),
                                         LNumber 0, LString (c_str text)])],
                    registry := (registry s)(LLightUserdata REGISTRY_KEY_ITERATOR :=
                                   LFunction (CClosure ?a))\<rparr>"
  have g: "gen_function text (int 0) s = lua_stepgenerator ?s1"
    by (simp add: gen_function_def initgenerator_table [OF inst ip])
  have "\<exists>s'. rl_completion_matches_from text 0 [] s
            = Some (Ok (rev [] @ map c_str (filter (starts_with (c_str text)) (drop 0 entries))) s')
        \<and> trace s' = trace ?s1 \<and> host s' = host ?s1 \<and> registry s' = registry ?s1
        \<and> length (closures s') = length (closures ?s1)
        \<and> (\<forall>c. c \<noteq> ?a \<longrightarrow> closures s' ! c = closures ?s1 ! c)"
    by (rule table_generation_from [OF NUL_c_str g]) (simp_all add: mem)
  then obtain s' where s': "rl_completion_matches_from text 0 [] s
            = Some (Ok (map c_str (filter (starts_with (c_str text)) entries)) s')"
        "trace s' = trace s" "host s' = host s" "registry s' = registry ?s1"
        "length (closures s') = Suc ?a"
        "\<forall>c. c \<noteq> ?a \<longrightarrow> closures s' ! c = closures ?s1 ! c"
    by auto
  from inst obtain c where c: "registry s (LLightUserdata REGISTRY_KEY_GENERATOR) = LFunction (CClosure c)"
     "c < length (closures s)" "closures s ! c = (F_lua_ipairsiterator, [LTable (map LString entries)])"
    by (auto simp: table_generator_installed_def split: lua_value.splits lua_function.splits)
  from c s'(4,5,6) have "table_generator_installed entries s'"
    by (simp add: table_generator_installed_def REGISTRY_KEY_GENERATOR_def REGISTRY_KEY_ITERATOR_def
        nth_append)
  with s'(1,2,3) show ?thesis
    by (intro exI [of _ s']) (simp add: rl_completion_matches_def)
qed


lemma setup_table:
  assumes ty: "lua_type 2 s = LUA_TTABLE"
    and v: "value_at (index2adr 2 s) s = LTable (map LString entries)"
    and su: "lua_readline_setup s = (prompt, old_sigint, s1)"
  shows "table_generator_installed entries s1"
proof -
  from setup_facts(10) [OF su] ty
  have g: "registry s1 (LLightUserdata REGISTRY_KEY_GENERATOR) = LFunction (CClosure (length (closures s)))"
    by (simp add: generator_for_def)
  from setup_closures [OF su] ty v
  have c: "closures s1 = closures s @ [(F_lua_ipairsiterator, [LTable (map LString entries)])]"
    by simp
  from g c show ?thesis by (simp add: table_generator_installed_def)
qed

lemma example_setup_table:
  "lua_readline_setup (example_call [LString ''> '', LTable t] d)
   = (Some ''> '', d, example_reading [LString ''> '', LTable t] (LFunction (CClosure 0))
                        [(F_lua_ipairsiterator, [LTable t])])"
  by (simp add: lua_readline_setup_def example_call_def example_reading_def example_world_def
      lua_tolstring_def index2adr_def lua_type_def lua_pushlightuserdata_def push_def
      lua_pushvalue_def lua_pushcclosure_def lua_settable_registry_def signal_def Let_def)

lemma example_table_installed:
  "table_generator_installed es
     (example_reading args (LFunction (CClosure 0)) [(F_lua_ipairsiterator, [LTable (map LString es)])])"
  by (simp add: table_generator_installed_def example_reading_def)

text \<open>
  Claim C3, as stated: the generation yields exactly the entries that pass the test. An
  entry is a Lua string and may contain the byte 0; \<^verbatim>\<open>lua_stepgenerator\<close> copies it with
  \<^verbatim>\<open>strncpy\<close> and returns a C string. For the table with the one entry \<open>a\<close>, 0, \<open>z\<close> and
  the prefix \<open>a\<close>, the candidate is \<open>a\<close>, which is not an entry of the table.
\<close>

theorem table_entry_NUL_counterexample:
  "(case rl_completion_matches ''a''
           (example_reading [LString ''> '', LTable (map LString [[CHR ''a'', CHR 0x00, CHR ''z'']])]
              (LFunction (CClosure 0))
              [(F_lua_ipairsiterator, [LTable (map LString [[CHR ''a'', CHR 0x00, CHR ''z'']])])]) of
      Some (Ok candidates s') \<Rightarrow>
        candidates = [''a''] \<and> candidates \<noteq> [[CHR ''a'', CHR 0x00, CHR ''z'']]
    | _ \<Rightarrow> False)"
proof -
  let ?t = "LTable (map LString [[CHR ''a'', CHR 0x00, CHR ''z'']])"
  let ?s = "example_reading [LString ''> '', ?t] (LFunction (CClosure 0)) [(F_lua_ipairsiterator, [?t])]"
  have g: "globals ?s ''ipairs'' = LFunction (LibFunction F_ipairs)"
    and m: "\<not> out_of_memory ?s"
    by (simp_all add: example_reading_def example_world_def)
  from table_generation_run [OF example_table_installed g m, of "''a''"]
  obtain s' where "rl_completion_matches ''a'' ?s = Some (Ok [''a''] s')"
    by (auto simp: starts_with_def c_str_def NUL_def)
  then show ?thesis by simp
qed


text \<open>
  Claim C3, amended. The completion source is a table whose values at \<open>1, \<dots>, n\<close> are the
  strings \<open>entries\<close>; then \<^verbatim>\<open>lua_readline\<close> installs the table generator. For every
  generation begun while it is installed, with the global \<^verbatim>\<open>ipairs\<close> being the library's
  and memory available, and for every word \<open>text\<close> to complete (a C string, so that the
  prefix is \<open>c_str text\<close>): the generation ends, and the candidates are the entries that
  are at least as long as the prefix and start with it, in the order of the table, each
  once, and each cut at its first 0 byte (so unchanged when it has none). No function of
  the host is called, and the table generator is still installed afterwards.
\<close>

theorem table_generation:
  assumes "lua_type 2 s0 = LUA_TTABLE"
    and "value_at (index2adr 2 s0) s0 = LTable (map LString entries)"
    and "lua_readline_setup s0 = (prompt, old_sigint, s1)"
    and "table_generator_installed entries s"
    and "globals s ''ipairs'' = LFunction (LibFunction F_ipairs)"
    and "\<not> out_of_memory s"
  shows "table_generator_installed entries s1
     \<and> (\<exists>s'. rl_completion_matches text s
              = Some (Ok (map c_str (filter (starts_with (c_str text)) entries)) s')
            \<and> trace s' = trace s \<and> host s' = host s \<and> table_generator_installed entries s')"
  using setup_table [OF assms(1,2,3)] table_generation_run [OF assms(4,5,6), of "text"]
  by blast

text \<open>
  The example host with the table \<open>apple\<close>, \<open>bar\<close>, \<open>avocado\<close> and the prefix \<open>a\<close>: the
  candidates are \<open>apple\<close> and \<open>avocado\<close>.
\<close>

theorem table_generation_witness:
  "lua_type 2 (example_call [LString ''> '', LTable (map LString [''apple'', ''bar'', ''avocado''])] SIG_DFL)
     = LUA_TTABLE
   \<and> lua_readline_setup
       (example_call [LString ''> '', LTable (map LString [''apple'', ''bar'', ''avocado''])] SIG_DFL)
     = (Some ''> '', SIG_DFL,
        example_reading [LString ''> '', LTable (map LString [''apple'', ''bar'', ''avocado''])]
          (LFunction (CClosure 0))
          [(F_lua_ipairsiterator, [LTable (map LString [''apple'', ''bar'', ''avocado''])])])
   \<and> table_generator_installed [''apple'', ''bar'', ''avocado'']
       (example_reading [LString ''> '', LTable (map LString [''apple'', ''bar'', ''avocado''])]
          (LFunction (CClosure 0))
          [(F_lua_ipairsiterator, [LTable (map LString [''apple'', ''bar'', ''avocado''])])])
   \<and> (\<exists>s'. rl_completion_matches ''a''
              (example_reading [LString ''> '', LTable (map LString [''apple'', ''bar'', ''avocado''])]
                (LFunction (CClosure 0))
                [(F_lua_ipairsiterator, [LTable (map LString [''apple'', ''bar'', ''avocado''])])])
            = Some (Ok [''apple'', ''avocado''] s')
          \<and> trace s' = [])"
proof -
  let ?t = "LTable (map LString [''apple'', ''bar'', ''avocado''])"
  let ?w = "example_call [LString ''> '', ?t] SIG_DFL"
  let ?s = "example_reading [LString ''> '', ?t] (LFunction (CClosure 0)) [(F_lua_ipairsiterator, [?t])]"
  have ty: "lua_type 2 ?w = LUA_TTABLE"
    by (simp add: lua_type_def index2adr_def example_call_def)
  have v: "value_at (index2adr 2 ?w) ?w = ?t"
    by (simp add: index2adr_def example_call_def)
  have su: "lua_readline_setup ?w = (Some ''> '', SIG_DFL, ?s)"
    by (rule example_setup_table)
  have g: "globals ?s ''ipairs'' = LFunction (LibFunction F_ipairs)"
    and m: "\<not> out_of_memory ?s"
    by (simp_all add: example_reading_def example_world_def)
  have f: "map c_str (filter (starts_with (c_str ''a'')) [''apple'', ''bar'', ''avocado''])
           = [''apple'', ''avocado'']"
    by (simp add: starts_with_def c_str_def NUL_def)
  have tr: "trace ?s = []"
    by (simp add: example_reading_def example_world_def)
  from table_generation [OF ty v su example_table_installed g m, of "''a''"] ty su
  show ?thesis
    unfolding f tr by auto
qed

end
